theory Spec2Isabelle
  imports Main "HOL-Library.Char_ord" "HOL-Library.List_Lexorder"
begin

section \<open>Strings and errors\<close>

text \<open>
  A Python \<open>str\<close> is a sequence of Unicode code points; the rupee sign U+20B9 of the
  scraper does not fit a byte, so text that comes from outside (table cells, JSON strings)
  is a list of code points. Program constants (URLs, region names) stay \<open>string\<close>.
\<close>

type_synonym ustr = "nat list"

definition ascii :: "string \<Rightarrow> ustr" where
  "ascii s = map of_char s"

datatype error =
    JSONDecodeError
  | AttributeError
  | TypeError
  | ValueError
  | OverflowError
  | RequestException

section \<open>Doubles\<close>

text \<open>
  A finite double is \<open>m * 2^e\<close> for integers \<open>m\<close> and \<open>e\<close>, where \<open>m\<close> has at most
  53 bits and \<open>e\<close> is \<open>-1074\<close> at least. \<open>to_double m e\<close> rounds the number
  \<open>m * 2^e\<close> to the nearest double, ties to even; \<open>None\<close> is an overflow, from \<open>2^1024\<close>
  on. Rounding below the normal range is not modelled: a difference of two doubles in
  that range is exact, and the products of the region prices are zero or one half at
  least.
\<close>

fun bit_length :: "nat \<Rightarrow> nat" where
  "bit_length n = (if n = 0 then 0 else Suc (bit_length (n div 2)))"

declare bit_length.simps [simp del]

definition round_shift :: "nat \<Rightarrow> nat \<Rightarrow> nat" where
  "round_shift n k =
     (let q = n div 2 ^ k; r = n mod 2 ^ k; h = 2 ^ (k - 1)
      in if k = 0 then n
         else if h < r \<or> (r = h \<and> q mod 2 = 1) then q + 1 else q)"

type_synonym double = "int \<times> int"

definition to_double :: "int \<Rightarrow> int \<Rightarrow> double option" where
  "to_double m e =
     (let n = bit_length (nat \<bar>m\<bar>);
          k = n - 53;
          q = round_shift (nat \<bar>m\<bar>) k
      in if 1024 < int (bit_length q) + (e + int k) then None
         else Some (sgn m * int q, e + int k))"

text \<open>
  A Python float is a finite double, an infinity or NaN (\<open>json.load\<close> reads the
  literals \<open>Infinity\<close>, \<open>-Infinity\<close> and \<open>NaN\<close>).
\<close>

datatype pyfloat = Fin double | PosInf | NegInf | NaN

text \<open>
  The number \<open>m * 2^e\<close> as a float: rounded to a double, or the infinity of its sign on
  overflow.
\<close>

definition round_double :: "int \<times> int \<Rightarrow> pyfloat" where
  "round_double z =
     (case to_double (fst z) (snd z) of
        Some d \<Rightarrow> Fin d
      | None \<Rightarrow> if 0 < fst z then PosInf else NegInf)"

text \<open>
  The difference of two doubles before rounding, on the smaller of the two exponents;
  \<open>x - y\<close> for finite floats is its rounding.
\<close>

definition exact_sub :: "double \<Rightarrow> double \<Rightarrow> int \<times> int" where
  "exact_sub x y =
     (let e = min (snd x) (snd y)
      in (fst x * 2 ^ nat (snd x - e) - fst y * 2 ^ nat (snd y - e), e))"

definition float_sub :: "double \<Rightarrow> double \<Rightarrow> pyfloat" where
  "float_sub x y = round_double (exact_sub x y)"

text \<open>The comparisons \<open>m * 2^e < n\<close> and \<open>m * 2^e > n\<close> with an integer, exact.\<close>

definition value_lt :: "int \<times> int \<Rightarrow> int \<Rightarrow> bool" where
  "value_lt z n =
     (if 0 \<le> snd z then fst z * 2 ^ nat (snd z) < n else fst z < n * 2 ^ nat (- snd z))"

definition value_gt :: "int \<times> int \<Rightarrow> int \<Rightarrow> bool" where
  "value_gt z n =
     (if 0 \<le> snd z then n < fst z * 2 ^ nat (snd z) else n * 2 ^ nat (- snd z) < fst z)"

text \<open>
  \<open>age < n\<close> and \<open>age > n\<close> for a float and an int: Python compares the two numbers
  exactly, and every comparison with NaN is false.
\<close>

fun float_lt :: "pyfloat \<Rightarrow> int \<Rightarrow> bool" where
  "float_lt (Fin a) n = value_lt a n"
| "float_lt NegInf n = True"
| "float_lt PosInf n = False"
| "float_lt NaN n = False"

fun float_gt :: "pyfloat \<Rightarrow> int \<Rightarrow> bool" where
  "float_gt (Fin a) n = value_gt a n"
| "float_gt PosInf n = True"
| "float_gt NegInf n = False"
| "float_gt NaN n = False"

definition float_mul :: "double \<Rightarrow> double \<Rightarrow> double option" where
  "float_mul x y = to_double (fst x * fst y) (snd x + snd y)"

text \<open>\<open>int(x)\<close> for a finite float: towards zero.\<close>

definition float_to_int :: "double \<Rightarrow> int" where
  "float_to_int x =
     (if 0 \<le> snd x then fst x * 2 ^ nat (snd x)
      else sgn (fst x) * (\<bar>fst x\<bar> div 2 ^ nat (- snd x)))"

text \<open>The literals \<open>0.9166\<close> and \<open>0.9\<close>, as the doubles they are read as.\<close>

definition c_0_9166 :: double where
  "c_0_9166 = (8255998836895593, -53)"

definition c_0_9 :: double where
  "c_0_9 = (8106479329266893, -53)"

text \<open>
  \<open>int(i * c)\<close> for an int \<open>i\<close> and a float \<open>c\<close>: \<open>i\<close> becomes a float (OverflowError
  when it is too large), the product is rounded, and an infinite product makes \<open>int\<close>
  raise OverflowError.
\<close>

definition int_times_float :: "int \<Rightarrow> double \<Rightarrow> error + int" where
  "int_times_float i c =
     (case to_double i 0 of
        None \<Rightarrow> Inl OverflowError
      | Some f \<Rightarrow>
          (case float_mul f c of
             None \<Rightarrow> Inl OverflowError
           | Some g \<Rightarrow> Inr (float_to_int g)))"

text \<open>
  The magnitudes an \<open>int\<close> cannot have as a float: from \<open>2^1024 - 2^970\<close> on, the
  first that rounds to \<open>2^1024\<close>.
\<close>

definition float_of_int_raises :: "int \<Rightarrow> bool" where
  "float_of_int_raises i = (2 ^ 1024 - 2 ^ 970 \<le> \<bar>i\<bar>)"

section \<open>Python values and the outside world\<close>

text \<open>
  What \<open>json.load\<close> can return. \<open>PDict\<close> holds the items of the dictionary (keys
  distinct, as Python keeps the last value of a repeated key).
\<close>

datatype pyval =
    PNone
  | PBool bool
  | PInt int
  | PFloat pyfloat
  | PStr ustr
  | PList "pyval list"
  | PDict "(ustr \<times> pyval) list"

text \<open>
  The cache file, when it exists, either makes \<open>open\<close>/\<open>json.load\<close> raise
  (\<open>Corrupt\<close>) or parses to a value.
\<close>

datatype file_content = Corrupt | Json pyval

datatype level = INFO | WARNING | ERROR

datatype log_entry =
    CacheUpdated int
  | CacheWriteFailed
  | CacheReadFailed error
  | Attempting string
  | ScrapeError string error
  | Rejected int
  | CacheStale

fun level_of :: "log_entry \<Rightarrow> level" where
  "level_of (CacheUpdated _) = INFO"
| "level_of CacheWriteFailed = ERROR"
| "level_of (CacheReadFailed _) = ERROR"
| "level_of (Attempting _) = INFO"
| "level_of (ScrapeError _ _) = ERROR"
| "level_of (Rejected _) = WARNING"
| "level_of CacheStale = INFO"

text \<open>
  The state the program acts on: the cache file (\<open>None\<close> when \<open>os.path.exists\<close> is
  false), the log, and the URLs passed to \<open>requests.get\<close> so far, oldest first.
\<close>

record world =
  cache_file :: "file_content option"
  log :: "log_entry list"
  gets :: "string list"

definition logging :: "log_entry list \<Rightarrow> world \<Rightarrow> world" where
  "logging es w = w\<lparr>log := log w @ es\<rparr>"

section \<open>Configuration\<close>

definition CACHE_EXPIRY_SECONDS :: int where
  "CACHE_EXPIRY_SECONDS = 3600"

definition FAILSAFE_ANCHOR_PRICE :: int where
  "FAILSAFE_ANCHOR_PRICE = 1"

definition MIN_VALID_PRICE :: int where
  "MIN_VALID_PRICE = 140000"

definition MAX_VALID_PRICE :: int where
  "MAX_VALID_PRICE = 180000"

section \<open>Layer 1: CacheManager\<close>

text \<open>\<open>d.get(key, default)\<close>; a value that is not a dictionary has no \<open>get\<close>.\<close>

definition dict_get :: "pyval \<Rightarrow> string \<Rightarrow> pyval \<Rightarrow> error + pyval" where
  "dict_get d key dflt =
     (case d of
        PDict kvs \<Rightarrow> (case map_of kvs (ascii key) of None \<Rightarrow> Inr dflt | Some v \<Rightarrow> Inr v)
      | _ \<Rightarrow> Inl AttributeError)"

text \<open>
  \<open>time.time() - x\<close>: a float minus a number. An \<open>int\<close> is first made a float
  (OverflowError when it is too large), \<open>bool\<close> is a subclass of \<open>int\<close>, and anything
  else is a TypeError.
\<close>

definition time_minus :: "double \<Rightarrow> pyval \<Rightarrow> error + pyfloat" where
  "time_minus now x =
     (case x of
        PBool b \<Rightarrow> Inr (float_sub now (if b then (1, 0) else (0, 0)))
      | PInt i \<Rightarrow>
          (case to_double i 0 of
             None \<Rightarrow> Inl OverflowError
           | Some f \<Rightarrow> Inr (float_sub now f))
      | PFloat (Fin t) \<Rightarrow> Inr (float_sub now t)
      | PFloat PosInf \<Rightarrow> Inr NegInf
      | PFloat NegInf \<Rightarrow> Inr PosInf
      | PFloat NaN \<Rightarrow> Inr NaN
      | _ \<Rightarrow> Inl TypeError)"



text \<open>The body of the \<open>try\<close> block of \<open>CacheManager.load\<close>, after \<open>json.load\<close>.\<close>

definition load_data :: "bool \<Rightarrow> double \<Rightarrow> pyval \<Rightarrow> error + pyval" where
  "load_data ignore_expiry now data =
     (case dict_get data ''timestamp'' (PInt 0) of
        Inl e \<Rightarrow> Inl e
      | Inr ts \<Rightarrow>
          (case time_minus now ts of
             Inl e \<Rightarrow> Inl e
           | Inr age \<Rightarrow>
               if float_lt age CACHE_EXPIRY_SECONDS \<or> ignore_expiry
               then dict_get data ''price'' PNone
               else Inr PNone))"

text \<open>\<open>CacheManager.load\<close>; \<open>PNone\<close> is Python's \<open>None\<close>.\<close>

definition load :: "bool \<Rightarrow> double \<Rightarrow> world \<Rightarrow> pyval \<times> world" where
  "load ignore_expiry now w =
     (case cache_file w of
        None \<Rightarrow> (PNone, w)
      | Some Corrupt \<Rightarrow> (PNone, logging [CacheReadFailed JSONDecodeError] w)
      | Some (Json data) \<Rightarrow>
          (case load_data ignore_expiry now data of
             Inl e \<Rightarrow> (PNone, logging [CacheReadFailed e] w)
           | Inr v \<Rightarrow> (v, w)))"

section \<open>Layer 2: MarketScraper\<close>

text \<open>\<open>MarketScraper._validate_price\<close>: the verdict and what it logs.\<close>

definition validate_price :: "int \<Rightarrow> bool \<times> log_entry list" where
  "validate_price price =
     (if MIN_VALID_PRICE < price \<and> price < MAX_VALID_PRICE then (True, [])
      else (False, [Rejected price]))"

subsection \<open>Python string operations\<close>

text \<open>
  \<open>str.isspace\<close>, the characters \<open>str.strip()\<close> removes: U+0009..U+000D,
  U+001C..U+0020, U+0085, U+00A0, U+1680, U+2000..U+200A, U+2028, U+2029, U+202F, U+205F
  and U+3000.
\<close>

definition isspace :: "nat \<Rightarrow> bool" where
  "isspace c =
     ((9 \<le> c \<and> c \<le> 13) \<or> (28 \<le> c \<and> c \<le> 32) \<or> c = 133 \<or> c = 160 \<or> c = 5760
      \<or> (8192 \<le> c \<and> c \<le> 8202) \<or> c = 8232 \<or> c = 8233 \<or> c = 8239 \<or> c = 8287
      \<or> c = 12288)"

definition strip :: "ustr \<Rightarrow> ustr" where
  "strip s = rev (dropWhile isspace (rev (dropWhile isspace s)))"

text \<open>\<open>s.replace(c, '')\<close> for a pattern \<open>c\<close> of one character.\<close>

definition replace_char :: "nat \<Rightarrow> ustr \<Rightarrow> ustr" where
  "replace_char c s = filter (\<lambda>x. x \<noteq> c) s"

text \<open>\<open>sub in s\<close>.\<close>

primrec contains :: "ustr \<Rightarrow> ustr \<Rightarrow> bool" where
  "contains sub [] = (sub = [])"
| "contains sub (c # cs) = (take (length sub) (c # cs) = sub \<or> contains sub cs)"

text \<open>
  \<open>str.lower\<close> on the letters A to Z. The mappings of the other code points are not
  modelled: none of them produces a character of the markers \<open>10 gram\<close> and \<open>24\<close>
  that the result is searched for.
\<close>

definition lower :: "ustr \<Rightarrow> ustr" where
  "lower s = map (\<lambda>c. if 65 \<le> c \<and> c \<le> 90 then c + 32 else c) s"

text \<open>
  The code points of the digit zero of every decimal digit system (general category Nd)
  known to the interpreter (Unicode 14, CPython 3.11); the nine that follow each are its
  digits one to nine.
\<close>

definition decimal_zeros :: "nat list" where
  "decimal_zeros =
     [48, 1632, 1776, 1984, 2406, 2534, 2662, 2790, 2918, 3046, 3174, 3302, 3430, 3558,
      3664, 3792, 3872, 4160, 4240, 6112, 6160, 6470, 6608, 6784, 6800, 6992, 7088, 7232,
      7248, 42528, 43216, 43264, 43472, 43504, 43600, 44016, 65296, 66720, 68912, 69734,
      69872, 69942, 70096, 70384, 70736, 70864, 71248, 71360, 71472, 71904, 72016, 72784,
      73040, 73120, 92768, 92864, 93008, 120782, 120792, 120802, 120812, 120822, 123200,
      123632, 125264, 130032]"

definition unicode_decimal :: "nat \<Rightarrow> nat option" where
  "unicode_decimal c =
     (case find (\<lambda>z. z \<le> c \<and> c < z + 10) decimal_zeros of
        None \<Rightarrow> None
      | Some z \<Rightarrow> Some (c - z))"

text \<open>
  \<open>int(s)\<close> for a \<open>str\<close>. The interpreter first maps every non-ASCII white space to a
  blank, every non-ASCII decimal digit to its ASCII digit and any other non-ASCII
  character to \<open>?\<close>; then it reads: white space of C (blank, U+0009..U+000D), an
  optional sign, digits with single underscores between them, white space, end. A
  literal of more than 4300 digits is refused (the default limit of CPython 3.11).
  ValueError is \<open>None\<close>.
\<close>

definition to_ascii :: "nat \<Rightarrow> nat" where
  "to_ascii c =
     (if c < 128 then c
      else if isspace c then 32
      else (case unicode_decimal c of Some d \<Rightarrow> 48 + d | None \<Rightarrow> 63))"

definition c_isspace :: "nat \<Rightarrow> bool" where
  "c_isspace c = (c = 32 \<or> (9 \<le> c \<and> c \<le> 13))"

definition is_digit :: "nat \<Rightarrow> bool" where
  "is_digit c = (48 \<le> c \<and> c \<le> 57)"

definition digits_value :: "nat list \<Rightarrow> int" where
  "digits_value ds = foldl (\<lambda>n c. 10 * n + int (c - 48)) 0 ds"

definition py_int :: "ustr \<Rightarrow> int option" where
  "py_int s =
     (let a = dropWhile c_isspace (map to_ascii s);
          (negative, b) =
             (case a of
                [] \<Rightarrow> (False, [])
              | c # r \<Rightarrow> if c = 45 then (True, r) else if c = 43 then (False, r) else (False, a));
          body = takeWhile (\<lambda>c. is_digit c \<or> c = 95) b;
          rest = dropWhile (\<lambda>c. is_digit c \<or> c = 95) b;
          digits = filter is_digit body
      in case body of
           [] \<Rightarrow> None
         | c # _ \<Rightarrow>
             if c = 95 \<or> last body = 95 \<or> contains [95, 95] body
                \<or> dropWhile c_isspace rest \<noteq> [] \<or> 4300 < length digits
             then None
             else Some (if negative then - digits_value digits else digits_value digits))"

subsection \<open>The scraper\<close>

text \<open>
  The document as BeautifulSoup presents it: the tables of \<open>find_all("table")\<close>, each
  with its flattened text and, for every \<open>tr\<close>, the texts of its \<open>td\<close> cells.
\<close>

record table =
  table_text :: ustr
  table_rows :: "ustr list list"

text \<open>
  What \<open>requests.get\<close> does for a URL: it raises (\<open>Failed\<close>: timeout, connection
  error), or answers with a status code and a document.
\<close>

datatype response = Failed | Response nat "table list"

text \<open>How a piece of the loop body ends: it falls through, returns, or raises.\<close>

datatype flow = Continue | Return int | Raise error

text \<open>Lines 184 to 186: the text of the second cell, cleaned and read as an integer.\<close>

definition clean_str :: "ustr \<Rightarrow> ustr" where
  "clean_str cell = replace_char 46 (replace_char 44 (replace_char 8377 (strip cell)))"

definition parse_cell :: "ustr \<Rightarrow> int option" where
  "parse_cell cell = py_int (clean_str cell)"

text \<open>The body of \<open>for row in rows\<close>, for the cells \<open>cols\<close> of one row.\<close>

definition scan_row :: "ustr list \<Rightarrow> log_entry list \<times> flow" where
  "scan_row cols =
     (if 1 < length cols \<and> contains (ascii ''10'') (cols ! 0)
      then (case parse_cell (cols ! 1) of
              None \<Rightarrow> ([], Raise ValueError)
            | Some price \<Rightarrow>
                (case validate_price price of
                   (True, l) \<Rightarrow> (l, Return price)
                 | (False, l) \<Rightarrow> (l, Continue)))
      else ([], Continue))"

fun scan_rows :: "ustr list list \<Rightarrow> log_entry list \<times> flow" where
  "scan_rows [] = ([], Continue)"
| "scan_rows (r # rs) =
     (case scan_row r of
        (l, Continue) \<Rightarrow> (case scan_rows rs of (l', f) \<Rightarrow> (l @ l', f))
      | (l, f) \<Rightarrow> (l, f))"

definition qualifies :: "table \<Rightarrow> bool" where
  "qualifies t =
     (contains (ascii ''10 gram'') (lower (table_text t))
      \<and> contains (ascii ''24'') (lower (table_text t)))"

fun scan_tables :: "table list \<Rightarrow> log_entry list \<times> flow" where
  "scan_tables [] = ([], Continue)"
| "scan_tables (t # ts) =
     (if qualifies t
      then (case scan_rows (table_rows t) of
              (l, Continue) \<Rightarrow> (case scan_tables ts of (l', f) \<Rightarrow> (l @ l', f))
            | (l, f) \<Rightarrow> (l, f))
      else scan_tables ts)"

text \<open>
  One iteration of \<open>for url in sources\<close>: what it logs, and the price it returns
  (\<open>None\<close> when the loop goes on to the next URL).
\<close>

definition scrape_one :: "(string \<Rightarrow> response) \<Rightarrow> string \<Rightarrow> log_entry list \<times> int option" where
  "scrape_one net url =
     (case net url of
        Failed \<Rightarrow> ([Attempting url, ScrapeError url RequestException], None)
      | Response status_code tables \<Rightarrow>
          if status_code = 200
          then (case scan_tables tables of
                  (l, Return price) \<Rightarrow> (Attempting url # l, Some price)
                | (l, Raise e) \<Rightarrow> (Attempting url # l @ [ScrapeError url e], None)
                | (l, Continue) \<Rightarrow> (Attempting url # l, None))
          else ([Attempting url], None))"

fun scrape_sources :: "(string \<Rightarrow> response) \<Rightarrow> string list \<Rightarrow> world \<Rightarrow> int option \<times> world" where
  "scrape_sources net [] w = (None, w)"
| "scrape_sources net (url # urls) w =
     (case scrape_one net url of
        (l, Some price) \<Rightarrow> (Some price, logging l (w\<lparr>gets := gets w @ [url]\<rparr>))
      | (l, None) \<Rightarrow> scrape_sources net urls (logging l (w\<lparr>gets := gets w @ [url]\<rparr>)))"

definition sources :: "string list" where
  "sources =
     [''https://www.policybazaar.com/gold-rate/'',
      ''https://www.goodreturns.in/gold-rates/'',
      ''https://www.tanishq.co.in/gold-rate.html?lang=en_IN'']"

text \<open>\<open>MarketScraper.fetch_goodreturns\<close>, on the network \<open>net\<close>.\<close>

definition fetch_goodreturns :: "(string \<Rightarrow> response) \<Rightarrow> world \<Rightarrow> int option \<times> world" where
  "fetch_goodreturns net w = scrape_sources net sources w"

section \<open>Layer 3: GoldService\<close>

text \<open>The truth value of a Python object.\<close>

fun truthy :: "pyval \<Rightarrow> bool" where
  "truthy PNone = False"
| "truthy (PBool b) = b"
| "truthy (PInt i) = (i \<noteq> 0)"
| "truthy (PFloat f) = (case f of Fin x \<Rightarrow> fst x \<noteq> 0 | _ \<Rightarrow> True)"
| "truthy (PStr s) = (s \<noteq> [])"
| "truthy (PList xs) = (xs \<noteq> [])"
| "truthy (PDict kvs) = (kvs \<noteq> [])"

text \<open>
  \<open>GoldService.get_master_price\<close>. The second read of the file is outside any
  \<open>try\<close>. \<open>MarketScraper\<close> has no attribute \<open>fetch_goodreturns_and_save\<close>, so
  building the thread's target raises AttributeError, after the stale cache has been
  logged. Both clock readings of a call are \<open>now\<close>.
\<close>

definition get_master_price :: "double \<Rightarrow> world \<Rightarrow> (error + pyval) \<times> world" where
  "get_master_price now w =
     (case load True now w of
        (cached_price, w1) \<Rightarrow>
          (case (case cache_file w1 of
                   None \<Rightarrow> Inr PNone
                 | Some Corrupt \<Rightarrow> Inl JSONDecodeError
                 | Some (Json d) \<Rightarrow> Inr d) of
             Inl e \<Rightarrow> (Inl e, w1)
           | Inr data \<Rightarrow>
               (case (if truthy data then dict_get data ''timestamp'' (PInt 0)
                      else Inr (PInt 0)) of
                  Inl e \<Rightarrow> (Inl e, w1)
                | Inr ts \<Rightarrow>
                    (case time_minus now ts of
                       Inl e \<Rightarrow> (Inl e, w1)
                     | Inr age \<Rightarrow>
                         if float_gt age CACHE_EXPIRY_SECONDS
                         then (Inl AttributeError, logging [CacheStale] w1)
                         else (Inr (if truthy cached_price then cached_price
                                    else PInt FAILSAFE_ANCHOR_PRICE), w1)))))"

subsection \<open>Chart synthesis\<close>

record chart =
  labels :: "string list"
  data :: "int list"

record charts =
  weekly :: chart
  monthly :: chart

definition variance_pattern :: "int list" where
  "variance_pattern = [-450, -120, 220, -80, 300, 90, 0]"

text \<open>
  The two loops of \<open>GoldService.generate_charts\<close>, over the values of \<open>i\<close> that
  remain. \<open>today\<close> is the day number of \<open>date.today()\<close>, \<open>fmt\<close> the \<open>strftime\<close> of the
  loop, and \<open>rnd k\<close> the result of the \<open>k\<close>-th call of \<open>random.randint(-300, 400)\<close>.
\<close>

fun week_loop ::
  "(int \<Rightarrow> string) \<Rightarrow> int \<Rightarrow> int \<Rightarrow> nat list \<Rightarrow> string list \<times> int list \<Rightarrow> string list \<times> int list"
where
  "week_loop fmt today base_price [] (week_labels, week_data) = (week_labels, week_data)"
| "week_loop fmt today base_price (i # rest) (week_labels, week_data) =
     week_loop fmt today base_price rest
       (week_labels @ [fmt (today - int i)],
        week_data @ [base_price + variance_pattern ! (6 - i)])"

fun month_loop ::
  "(int \<Rightarrow> string) \<Rightarrow> (nat \<Rightarrow> int) \<Rightarrow> int \<Rightarrow> int \<Rightarrow> nat list \<Rightarrow> nat \<Rightarrow> int
     \<Rightarrow> string list \<times> int list \<Rightarrow> string list \<times> int list"
where
  "month_loop fmt rnd today base_price [] k current_sim_price (month_labels, month_data) =
     (month_labels, month_data)"
| "month_loop fmt rnd today base_price (i # rest) k current_sim_price (month_labels, month_data) =
     (let change = rnd k;
          walked = current_sim_price + change;
          forced = (if i = 0 then base_price else walked)
      in month_loop fmt rnd today base_price rest (Suc k) forced
           (month_labels @ [fmt (today - int i)], month_data @ [forced]))"

text \<open>\<open>range(n - 1, -1, -1)\<close>.\<close>

definition down_from :: "nat \<Rightarrow> nat list" where
  "down_from n = rev [0..<n]"

definition generate_charts ::
  "(int \<Rightarrow> string) \<Rightarrow> (int \<Rightarrow> string) \<Rightarrow> (nat \<Rightarrow> int) \<Rightarrow> int \<Rightarrow> int \<Rightarrow> charts"
where
  "generate_charts fmt_a fmt_d_b rnd today base_price =
     (case week_loop fmt_a today base_price (down_from 7) ([], []) of
        (week_labels, week_data) \<Rightarrow>
          (case month_loop fmt_d_b rnd today base_price (down_from 30) 0
                  (base_price - 1500) ([], []) of
             (month_labels, month_data) \<Rightarrow>
               \<lparr>weekly = \<lparr>labels = week_labels, data = week_data\<rparr>,
                monthly = \<lparr>labels = month_labels, data = month_data\<rparr>\<rparr>))"

subsection \<open>Region prices\<close>

definition STATE_OFFSETS :: "(string \<times> int) list" where
  "STATE_OFFSETS =
     [(''Delhi'', 21), (''Haryana'', 14), (''Punjab'', 16), (''Himachal Pradesh'', 19),
      (''Jammu and Kashmir'', 18), (''Ladakh'', 22), (''Uttarakhand'', 12),
      (''Uttar Pradesh'', 17), (''Chandigarh'', 15), (''Rajasthan'', 24),
      (''Maharashtra'', 23), (''Gujarat'', 16), (''Goa'', 15),
      (''Dadra and Nagar Haveli'', 19), (''Daman and Diu'', 18),
      (''Karnataka'', 10), (''Tamil Nadu'', 8), (''Kerala'', -25), (''Telangana'', -8),
      (''Andhra Pradesh'', -18), (''Puducherry'', -20), (''Lakshadweep'', 14),
      (''Andaman and Nicobar Islands'', 130),
      (''West Bengal'', 60), (''Odisha'', 40), (''Bihar'', 50), (''Jharkhand'', 50),
      (''Madhya Pradesh'', 50), (''Chhattisgarh'', 40),
      (''Assam'', 80), (''Sikkim'', 100), (''Arunachal Pradesh'', 200), (''Manipur'', 200),
      (''Meghalaya'', 180), (''Mizoram'', 200), (''Nagaland'', 200), (''Tripura'', 200)]"

record entry =
  name :: string
  p24 :: int
  p22 :: int
  p24_1g :: int
  p22_1g :: int

text \<open>The loop of \<open>GoldService.calculate_all_states\<close> over the items that remain.\<close>

fun states_loop :: "int \<Rightarrow> int \<Rightarrow> (string \<times> int) list \<Rightarrow> error + entry list" where
  "states_loop base_price_24k base_price_22k [] = Inr []"
| "states_loop base_price_24k base_price_22k ((state_name, offset) # rest) =
     (case int_times_float offset c_0_9 of
        Inl e \<Rightarrow> Inl e
      | Inr offset_22k \<Rightarrow>
          (case states_loop base_price_24k base_price_22k rest of
             Inl e \<Rightarrow> Inl e
           | Inr results \<Rightarrow>
               Inr (\<lparr>name = state_name,
                     p24 = base_price_24k + offset,
                     p22 = base_price_22k + offset_22k,
                     p24_1g = (base_price_24k + offset) div 10,
                     p22_1g = (base_price_22k + offset_22k) div 10\<rparr> # results)))"

text \<open>
  \<open>results.sort(key=...)\<close> is a stable sort on the names, compared code point by code
  point.
\<close>

definition calculate_all_states :: "int \<Rightarrow> error + entry list" where
  "calculate_all_states base_price_24k =
     (case int_times_float base_price_24k c_0_9166 of
        Inl e \<Rightarrow> Inl e
      | Inr base_price_22k \<Rightarrow>
          (case states_loop base_price_24k base_price_22k STATE_OFFSETS of
             Inl e \<Rightarrow> Inl e
           | Inr results \<Rightarrow> Inr (sort_key name results)))"

section \<open>Scenarios\<close>

text \<open>
  The inputs of the scenarios: a world with a given cache file and nothing logged or
  fetched yet, a cache file holding a price and its timestamp, a world whose cache file
  holds a JSON object with the given fields, a table that carries both
  markers, and a network on which one site answers 200 with the given tables while every
  other request fails.
\<close>

definition world_with :: "file_content option \<Rightarrow> world" where
  "world_with f = \<lparr>cache_file = f, log = [], gets = []\<rparr>"

definition cached :: "int \<Rightarrow> double \<Rightarrow> file_content" where
  "cached price t =
     Json (PDict [(ascii ''price'', PInt price), (ascii ''timestamp'', PFloat (Fin t))])"

definition stored :: "(string \<times> pyval) list \<Rightarrow> world" where
  "stored items = world_with (Some (Json (PDict (map (\<lambda>(k, v). (ascii k, v)) items))))"

definition gold_table :: "ustr list list \<Rightarrow> table" where
  "gold_table rows = \<lparr>table_text = ascii ''Gold Rate 24 Carat 10 Gram'', table_rows = rows\<rparr>"

definition serves :: "string \<Rightarrow> table list \<Rightarrow> string \<Rightarrow> response" where
  "serves site tables url = (if url = site then Response 200 tables else Failed)"

section \<open>Facts about the model\<close>

subsection \<open>Evaluating the float model\<close>

lemma bit_length_0 [simp]: "bit_length 0 = 0"
  by (simp add: bit_length.simps)

lemma bit_length_Suc_0 [simp]: "bit_length (Suc 0) = 1"
  by (simp add: bit_length.simps)

lemma bit_length_Bit0 [simp]: "bit_length (numeral (Num.Bit0 k)) = 1 + bit_length (numeral k)"
  by (subst bit_length.simps) simp

lemma bit_length_Bit1 [simp]: "bit_length (numeral (Num.Bit1 k)) = 1 + bit_length (numeral k)"
  by (subst bit_length.simps) simp

lemmas float_defs = int_times_float_def to_double_def round_shift_def float_mul_def
  float_to_int_def c_0_9_def c_0_9166_def Let_def

lemmas cache_defs = load_def load_data_def dict_get_def time_minus_def logging_def
  CACHE_EXPIRY_SECONDS_def float_sub_def exact_sub_def round_double_def to_double_def
  round_shift_def value_lt_def value_gt_def Let_def

lemmas text_defs = ascii_def strip_def replace_char_def clean_str_def parse_cell_def
  py_int_def to_ascii_def isspace_def c_isspace_def is_digit_def digits_value_def lower_def

lemmas scrape_defs = scan_row_def qualifies_def scrape_one_def fetch_goodreturns_def
  sources_def validate_price_def MIN_VALID_PRICE_def MAX_VALID_PRICE_def

subsection \<open>Rounding and overflow\<close>

lemma bit_length_le_iff: "bit_length n \<le> b \<longleftrightarrow> n < 2 ^ b"
proof (induction b arbitrary: n)
  case 0
  show ?case by (subst bit_length.simps) simp
next
  case (Suc b)
  have "bit_length n \<le> Suc b \<longleftrightarrow> n = 0 \<or> bit_length (n div 2) \<le> b"
    by (subst bit_length.simps) simp
  also have "\<dots> \<longleftrightarrow> n = 0 \<or> n div 2 < 2 ^ b"
    by (simp add: Suc.IH)
  also have "\<dots> \<longleftrightarrow> n < 2 ^ Suc b"
    by auto
  finally show ?case .
qed

lemma bit_length_gt_iff: "b < bit_length n \<longleftrightarrow> 2 ^ b \<le> n"
  using bit_length_le_iff [of n b] by auto

lemma round_shift_0 [simp]: "round_shift n 0 = n"
  by (simp add: round_shift_def)

lemma round_shift_pos:
  "0 < k \<Longrightarrow> round_shift n k =
     (if 2 ^ (k - 1) < n mod 2 ^ k \<or> (n mod 2 ^ k = 2 ^ (k - 1) \<and> (n div 2 ^ k) mod 2 = 1)
      then n div 2 ^ k + 1 else n div 2 ^ k)"
  by (simp add: round_shift_def Let_def)

lemma round_shift_bounds:
  "n div 2 ^ k \<le> round_shift n k \<and> round_shift n k \<le> n div 2 ^ k + 1"
  by (cases "k = 0") (simp_all add: round_shift_pos)

lemma div_pow_bounds:
  assumes "bit_length n = k + 53"
  shows "2 ^ 52 \<le> n div 2 ^ k \<and> n div 2 ^ k < 2 ^ 53"
proof -
  have lo: "(2::nat) ^ (k + 52) \<le> n"
    using assms bit_length_gt_iff [of "k + 52" n] by simp
  have hi: "n < 2 ^ (k + 53)"
    using assms bit_length_le_iff [of n "k + 53"] by simp
  have "2 ^ 52 * 2 ^ k \<le> n"
    using lo by (simp add: power_add mult.commute)
  then have 1: "2 ^ 52 \<le> n div 2 ^ k"
    by (simp add: less_eq_div_iff_mult_less_eq)
  have "n < 2 ^ 53 * 2 ^ k"
    using hi by (simp add: power_add mult.commute)
  then have 2: "n div 2 ^ k < 2 ^ 53"
    by (simp add: less_mult_imp_div_less)
  from 1 2 show ?thesis by blast
qed

lemma to_double_int_None_iff: "to_double i 0 = None \<longleftrightarrow> float_of_int_raises i"
proof -
  define n where "n = nat \<bar>i\<bar>"
  define L where "L = bit_length n"
  define k where "k = L - 53"
  define q where "q = round_shift n k"
  have td: "to_double i 0 = None \<longleftrightarrow> 1024 < bit_length q + k"
    by (simp add: to_double_def Let_def n_def L_def k_def q_def)
  have "\<bar>i\<bar> = int n" by (simp add: n_def)
  then have "float_of_int_raises i \<longleftrightarrow> int (2 ^ 1024 - 2 ^ 970) \<le> int n"
    by (simp add: float_of_int_raises_def of_nat_diff)
  then have fr: "float_of_int_raises i \<longleftrightarrow> 2 ^ 1024 - 2 ^ 970 \<le> n"
    by (simp only: of_nat_le_iff)
  show ?thesis
  proof (cases "L \<le> 53")
    case True
    then have "k = 0" by (simp add: k_def)
    then have "q = n" by (simp add: q_def)
    with True \<open>k = 0\<close> have 1: "\<not> 1024 < bit_length q + k" by (simp add: L_def)
    from True have "n < 2 ^ 53" by (simp add: L_def bit_length_le_iff)
    then have 2: "\<not> 2 ^ 1024 - 2 ^ 970 \<le> n" by simp
    from 1 2 td fr show ?thesis by simp
  next
    case False
    then have Lk: "L = k + 53" and kpos: "0 < k" by (simp_all add: k_def)
    have q0: "2 ^ 52 \<le> n div 2 ^ k" "n div 2 ^ k < 2 ^ 53"
      using div_pow_bounds [of n k] Lk by (simp_all add: L_def)
    have qb: "n div 2 ^ k \<le> q" "q \<le> n div 2 ^ k + 1"
      using round_shift_bounds [of n k] by (simp_all add: q_def)
    have "2 ^ 52 \<le> q" using q0 qb by linarith
    then have bq_lo: "53 \<le> bit_length q"
      using bit_length_gt_iff [of 52 q] by simp
    have "q < 2 ^ 54" using q0 qb by simp
    then have bq_hi: "bit_length q \<le> 54"
      by (simp add: bit_length_le_iff)
    have bq54: "bit_length q = 54 \<longleftrightarrow> q = 2 ^ 53"
    proof
      assume "bit_length q = 54"
      then have "2 ^ 53 \<le> q" using bit_length_gt_iff [of 53 q] by simp
      with q0 qb show "q = 2 ^ 53" by linarith
    next
      assume "q = 2 ^ 53"
      then have "53 < bit_length q" by (simp add: bit_length_gt_iff)
      with bq_hi show "bit_length q = 54" by simp
    qed
    consider "L \<le> 1023" | "L = 1024" | "1025 \<le> L" by linarith
    then show ?thesis
    proof cases
      case 1
      then have "k \<le> 970" using Lk by simp
      with bq_hi have a: "\<not> 1024 < bit_length q + k" by simp
      from 1 have "n < 2 ^ 1023" by (simp add: L_def bit_length_le_iff)
      then have b: "\<not> 2 ^ 1024 - 2 ^ 970 \<le> n" by simp
      from a b td fr show ?thesis by simp
    next
      case 3
      then have "972 \<le> k" using Lk by simp
      with bq_lo have a: "1024 < bit_length q + k" by simp
      from 3 have "1024 < bit_length n" by (simp add: L_def)
      then have "2 ^ 1024 \<le> n" by (simp add: bit_length_gt_iff)
      then have b: "2 ^ 1024 - 2 ^ 970 \<le> n" by simp
      from a b td fr show ?thesis by simp
    next
      case 2
      then have k: "k = 971" using Lk by simp
      have a: "1024 < bit_length q + k \<longleftrightarrow> q = 2 ^ 53"
        using bq54 bq_hi k by auto
      have nhi: "n < 2 ^ 1024"
        using 2 bit_length_le_iff [of n 1024] by (simp add: L_def)
      define d where "d = n div 2 ^ 971"
      define r where "r = n mod 2 ^ 971"
      have n: "n = d * 2 ^ 971 + r" by (simp add: d_def r_def)
      have r: "r < 2 ^ 971" by (simp add: r_def)
      have d: "d < 2 ^ 53" using q0 k by (simp add: d_def)
      have qd: "q = (if 2 ^ 970 < r \<or> (r = 2 ^ 970 \<and> d mod 2 = 1) then d + 1 else d)"
        using round_shift_pos [of 971 n] by (simp add: q_def k d_def r_def)
      have b: "q = 2 ^ 53 \<longleftrightarrow> 2 ^ 1024 - 2 ^ 970 \<le> n"
      proof
        assume e: "q = 2 ^ 53"
        with qd d have "d = 2 ^ 53 - 1" and "2 ^ 970 \<le> r"
          by (auto split: if_splits)
        with n show "2 ^ 1024 - 2 ^ 970 \<le> n" by simp
      next
        assume g: "2 ^ 1024 - 2 ^ 970 \<le> n"
        have "d = 2 ^ 53 - 1"
        proof (rule ccontr)
          assume "d \<noteq> 2 ^ 53 - 1"
          with d have "d \<le> 2 ^ 53 - 2" by simp
          then have "d * 2 ^ 971 \<le> (2 ^ 53 - 2) * 2 ^ 971" by (rule mult_le_mono1)
          with n r g show False by simp
        qed
        moreover from this n g have "2 ^ 970 \<le> r" by simp
        ultimately show "q = 2 ^ 53" using qd by auto
      qed
      from a b td fr show ?thesis by simp
    qed
  qed
qed

lemma float_mul_finite:
  assumes f: "to_double i 0 = Some f" and c: "nat \<bar>fst c\<bar> < 2 ^ 53" "snd c = - 53"
  shows "float_mul f c \<noteq> None"
proof -
  define n where "n = nat \<bar>i\<bar>"
  define k where "k = bit_length n - 53"
  define q where "q = round_shift n k"
  define M where "M = nat \<bar>fst c\<bar>"
  from f have fin: "int (bit_length q) + int k \<le> 1024" and fv: "f = (sgn i * int q, int k)"
    by (auto simp: to_double_def Let_def n_def k_def q_def split: if_splits)
  have "i = 0 \<Longrightarrow> q = 0" by (simp add: q_def k_def n_def)
  then have "\<bar>sgn i * int q\<bar> = int q"
    by (cases "i = 0") (simp_all add: abs_mult)
  then have "\<bar>fst f * fst c\<bar> = int q * \<bar>fst c\<bar>"
    by (simp only: fv fst_conv abs_mult [of "sgn i * int q" "fst c"])
  then have absf: "nat \<bar>fst f * fst c\<bar> = q * M"
    by (simp add: M_def nat_mult_distrib)
  define L' where "L' = bit_length (q * M)"
  define k' where "k' = L' - 53"
  define q' where "q' = round_shift (q * M) k'"
  have fm: "float_mul f c = None \<longleftrightarrow> 1024 < int (bit_length q') + (int k - 53 + int k')"
    by (simp add: float_mul_def to_double_def Let_def absf [unfolded fv fst_conv] c(2) fv
        L'_def k'_def q'_def)
  define Lq where "Lq = bit_length q"
  have qlt: "q < 2 ^ Lq"
    using bit_length_le_iff [of q Lq] by (simp add: Lq_def)
  have Mlt: "M < 2 ^ 53" using c(1) by (simp add: M_def)
  have prod_le: "q * M \<le> 2 ^ Lq * M"
    using qlt by simp
  have "\<not> 1024 < int (bit_length q') + (int k - 53 + int k')"
  proof (cases "L' \<le> 53")
    case True
    then have "k' = 0" by (simp add: k'_def)
    then have "q' = q * M" by (simp add: q'_def)
    then have "bit_length q' \<le> 53" using True by (simp add: L'_def)
    with \<open>k' = 0\<close> fin show ?thesis by simp
  next
    case False
    then have L'k: "L' = k' + 53" and k'pos: "0 < k'" by (simp_all add: k'_def)
    have q0: "(q * M) div 2 ^ k' < 2 ^ 53"
      using div_pow_bounds [of "q * M" k'] L'k by (simp add: L'_def)
    have qb: "q' \<le> (q * M) div 2 ^ k' + 1"
      using round_shift_bounds [of "q * M" k'] by (simp add: q'_def)
    have "q * M < 2 ^ Lq * 2 ^ 53"
      using qlt Mlt by (simp add: mult_strict_mono)
    then have "q * M < 2 ^ (Lq + 53)" by (simp add: power_add)
    then have "L' \<le> Lq + 53" by (simp add: L'_def bit_length_le_iff)
    then have k'le: "k' \<le> Lq" using L'k by simp
    show ?thesis
    proof (cases "k' = Lq")
      case False
      with k'le have "k' + 1 \<le> Lq" by simp
      moreover have "q' < 2 ^ 54" using q0 qb by simp
      then have "bit_length q' \<le> 54" by (simp add: bit_length_le_iff)
      ultimately show ?thesis using fin by (simp add: Lq_def)
    next
      case True
      have "q * M < M * 2 ^ k'"
      proof (cases "M = 0")
        case True
        with False L'k show ?thesis by (simp add: L'_def)
      next
        case False
        then show ?thesis using qlt \<open>k' = Lq\<close> by (simp add: mult.commute)
      qed
      then have "(q * M) div 2 ^ k' < M"
        by (simp add: less_mult_imp_div_less)
      with qb Mlt have "q' < 2 ^ 53" by simp
      then have "bit_length q' \<le> 53" by (simp add: bit_length_le_iff)
      then show ?thesis using fin True by (simp add: Lq_def)
    qed
  qed
  with fm show ?thesis by simp
qed

lemma int_times_float_Inr_iff:
  assumes "nat \<bar>fst c\<bar> < 2 ^ 53" "snd c = - 53"
  shows "(\<exists>v. int_times_float i c = Inr v) \<longleftrightarrow> \<not> float_of_int_raises i"
proof (cases "to_double i 0")
  case None
  then show ?thesis
    using to_double_int_None_iff [of i] by (simp add: int_times_float_def)
next
  case (Some f)
  have "float_mul f c \<noteq> None" by (rule float_mul_finite [OF Some assms])
  then obtain g where "float_mul f c = Some g" by blast
  with Some show ?thesis
    using to_double_int_None_iff [of i] by (simp add: int_times_float_def)
qed

lemma c_0_9166_mantissa: "nat \<bar>fst c_0_9166\<bar> < 2 ^ 53" "snd c_0_9166 = - 53"
  by (simp_all add: c_0_9166_def)

subsection \<open>Only a price inside the band is ever returned\<close>

lemma scan_row_Return:
  "scan_row cols = (l, Return p) \<Longrightarrow> MIN_VALID_PRICE < p \<and> p < MAX_VALID_PRICE"
  by (auto simp: scan_row_def validate_price_def split: if_splits option.splits)

lemma scan_rows_Return:
  "scan_rows rows = (l, Return p) \<Longrightarrow> MIN_VALID_PRICE < p \<and> p < MAX_VALID_PRICE"
proof (induction rows arbitrary: l)
  case Nil
  then show ?case by simp
next
  case (Cons r rows)
  obtain l1 f1 where r: "scan_row r = (l1, f1)" by (cases "scan_row r")
  obtain l2 f2 where rs: "scan_rows rows = (l2, f2)" by (cases "scan_rows rows")
  show ?case
  proof (cases f1)
    case Continue
    with Cons.prems r rs have "f2 = Return p" by simp
    with rs Cons.IH show ?thesis by simp
  next
    case (Return q)
    with Cons.prems r have "q = p" by simp
    with r Return scan_row_Return show ?thesis by blast
  next
    case (Raise e)
    with Cons.prems r show ?thesis by simp
  qed
qed

lemma scan_tables_Return:
  "scan_tables ts = (l, Return p) \<Longrightarrow> MIN_VALID_PRICE < p \<and> p < MAX_VALID_PRICE"
proof (induction ts arbitrary: l)
  case Nil
  then show ?case by simp
next
  case (Cons t ts)
  obtain l1 f1 where r: "scan_rows (table_rows t) = (l1, f1)"
    by (cases "scan_rows (table_rows t)")
  obtain l2 f2 where rs: "scan_tables ts = (l2, f2)" by (cases "scan_tables ts")
  show ?case
  proof (cases "qualifies t")
    case False
    with Cons show ?thesis by simp
  next
    case True
    show ?thesis
    proof (cases f1)
      case Continue
      with Cons.prems r rs True have "f2 = Return p" by simp
      with rs Cons.IH show ?thesis by simp
    next
      case (Return q)
      with Cons.prems r True have "q = p" by simp
      with r Return scan_rows_Return show ?thesis by blast
    next
      case (Raise e)
      with Cons.prems r True show ?thesis by simp
    qed
  qed
qed

lemma scrape_one_Some:
  assumes "snd (scrape_one net url) = Some p"
  shows "MIN_VALID_PRICE < p \<and> p < MAX_VALID_PRICE"
proof (cases "net url")
  case Failed
  with assms show ?thesis by (simp add: scrape_one_def)
next
  case (Response status_code tables)
  obtain l f where st: "scan_tables tables = (l, f)" by (cases "scan_tables tables")
  from assms Response st have "f = Return p"
    by (cases f) (simp_all add: scrape_one_def split: if_splits)
  with st scan_tables_Return show ?thesis by blast
qed

lemma scrape_sources_Some:
  "fst (scrape_sources net urls w) = Some p \<Longrightarrow> MIN_VALID_PRICE < p \<and> p < MAX_VALID_PRICE"
proof (induction urls arbitrary: w)
  case Nil
  then show ?case by simp
next
  case (Cons url urls)
  obtain l r where s: "scrape_one net url = (l, r)" by (cases "scrape_one net url")
  show ?case
  proof (cases r)
    case None
    with Cons.prems s Cons.IH show ?thesis by simp
  next
    case (Some q)
    with Cons.prems s have "snd (scrape_one net url) = Some p" by simp
    then show ?thesis by (rule scrape_one_Some)
  qed
qed

subsection \<open>The scraper and the cache file\<close>

lemma scrape_sources_cache_file: "cache_file (snd (scrape_sources net urls w)) = cache_file w"
proof (induction urls arbitrary: w)
  case Nil
  show ?case by simp
next
  case (Cons url urls)
  obtain l r where s: "scrape_one net url = (l, r)" by (cases "scrape_one net url")
  show ?case
    by (cases r) (simp_all add: s Cons.IH logging_def)
qed

subsection \<open>Sources without a price are passed over\<close>

lemma scrape_sources_skip:
  "\<forall>x\<in>set us. snd (scrape_one net x) = None \<Longrightarrow>
   \<exists>w'. scrape_sources net (us @ vs) w = scrape_sources net vs w' \<and> gets w' = gets w @ us"
proof (induction us arbitrary: w)
  case Nil
  have "scrape_sources net ([] @ vs) w = scrape_sources net vs w \<and> gets w = gets w @ []"
    by simp
  then show ?case by blast
next
  case (Cons u us)
  obtain l where s: "scrape_one net u = (l, None)"
    using Cons.prems by (cases "scrape_one net u") simp
  let ?w1 = "logging l (w\<lparr>gets := gets w @ [u]\<rparr>)"
  from Cons.prems have "\<forall>x\<in>set us. snd (scrape_one net x) = None" by simp
  from Cons.IH [OF this, of ?w1]
  obtain w' where "scrape_sources net (us @ vs) ?w1 = scrape_sources net vs w'"
    and "gets w' = gets ?w1 @ us" by blast
  then show ?case by (auto simp: s logging_def)
qed

lemma scan_rows_rejected:
  assumes "1 < length cols" "contains (ascii ''10'') (cols ! 0)"
    "parse_cell (cols ! 1) = Some p" "\<not> (MIN_VALID_PRICE < p \<and> p < MAX_VALID_PRICE)"
  shows "scan_rows (cols # rows) = (Rejected p # fst (scan_rows rows), snd (scan_rows rows))"
proof -
  have "scan_row cols = ([Rejected p], Continue)"
    using assms by (auto simp: scan_row_def validate_price_def)
  then show ?thesis by (simp add: case_prod_beta)
qed

subsection \<open>Scenario evaluations\<close>

lemma scan_tables_170500:
  "scan_tables [gold_table [[ascii ''10 gram'', 8377 # ascii ''1,70,500'']]]
   = ([], Return 170500)"
  by (simp add: gold_table_def scrape_defs text_defs)

lemma scan_tables_78000_156000:
  "scan_tables [gold_table [[ascii ''10 gram'', ascii ''78000''],
                            [ascii ''10 gram'', ascii ''156000'']]]
   = ([Rejected 78000], Return 156000)"
  by (simp add: gold_table_def scrape_defs text_defs)

lemma scrape_one_78000_156000:
  "scrape_one (serves ''https://www.policybazaar.com/gold-rate/''
             [gold_table [[ascii ''10 gram'', ascii ''78000''], [ascii ''10 gram'', ascii ''156000'']]])
          ''https://www.policybazaar.com/gold-rate/''
   = ([Attempting ''https://www.policybazaar.com/gold-rate/'', Rejected 78000], Some 156000)"
  by (simp add: scrape_one_def serves_def scan_tables_78000_156000 del: scan_tables.simps)

lemma scrape_one_other_site:
  "url \<noteq> site \<Longrightarrow>
   scrape_one (serves site rows) url = ([Attempting url, ScrapeError url RequestException], None)"
  by (simp add: scrape_one_def serves_def)

lemma scrape_one_170500:
  "scrape_one (serves site [gold_table [[ascii ''10 gram'', 8377 # ascii ''1,70,500'']]]) site
   = ([Attempting site], Some 170500)"
  by (simp add: scrape_one_def serves_def scan_tables_170500 del: scan_tables.simps)

lemma scrape_one_78000:
  "scrape_one (serves site [gold_table [[ascii ''10 gram'', ascii ''78000'']]]) site
   = ([Attempting site, Rejected 78000], None)"
  by (simp add: scrape_one_def serves_def gold_table_def scrape_defs text_defs)

section \<open>Request-time resolution\<close>

text \<open>
  C1. The claim: for every state of the store (no cache file, fresh, stale or corrupt
  record) \<open>get_master_price\<close> returns an integer price and never raises. The code
  raises in three of the four states: with no cache file and with a stale record it
  reaches \<open>MarketScraper.fetch_goodreturns_and_save\<close>, an attribute the class does not
  have (AttributeError); on a corrupt file its second, unguarded \<open>json.load\<close> raises.
  Only the fresh record is served.
\<close>

theorem get_master_price_raises:
  "fst (get_master_price (1700000000, 0) (world_with None)) = Inl AttributeError
   \<and> fst (get_master_price (1700000000, 0) (world_with (Some (cached 165000 (1699990000, 0)))))
       = Inl AttributeError
   \<and> fst (get_master_price (1700000000, 0) (world_with (Some Corrupt))) = Inl JSONDecodeError
   \<and> fst (get_master_price (1700000000, 0) (world_with (Some (cached 168000 (1699999000, 0)))))
       = Inr (PInt 168000)"
  by (simp add: get_master_price_def world_with_def cached_def cache_defs ascii_def)

section \<open>Persistence of a scraped price\<close>

text \<open>
  C2. The claim: a validated price obtained by the refresh is persisted, so that the next
  resolution returns it (scenario 3: stale 165000, first source gives 170500). In the
  code \<open>fetch_goodreturns\<close> returns 170500 and leaves the cache file as it was, so a
  later load still gives 165000; and the resolution that should start the refresh raises
  AttributeError instead.
\<close>

theorem validated_price_is_not_persisted:
  "fst (fetch_goodreturns
          (serves ''https://www.policybazaar.com/gold-rate/''
             [gold_table [[ascii ''10 gram'', 8377 # ascii ''1,70,500'']]])
          (world_with (Some (cached 165000 (1699990000, 0))))) = Some 170500
   \<and> cache_file (snd (fetch_goodreturns
          (serves ''https://www.policybazaar.com/gold-rate/''
             [gold_table [[ascii ''10 gram'', 8377 # ascii ''1,70,500'']]])
          (world_with (Some (cached 165000 (1699990000, 0)))))) = Some (cached 165000 (1699990000, 0))
   \<and> fst (load True (1700000000, 0) (snd (fetch_goodreturns
          (serves ''https://www.policybazaar.com/gold-rate/''
             [gold_table [[ascii ''10 gram'', 8377 # ascii ''1,70,500'']]])
          (world_with (Some (cached 165000 (1699990000, 0))))))) = PInt 165000
   \<and> fst (get_master_price (1700000000, 0) (world_with (Some (cached 165000 (1699990000, 0)))))
       = Inl AttributeError"
proof -
  let ?net = "serves ''https://www.policybazaar.com/gold-rate/''
                [gold_table [[ascii ''10 gram'', 8377 # ascii ''1,70,500'']]]"
  let ?w = "world_with (Some (cached 165000 (1699990000, 0)))"
  have r: "fetch_goodreturns ?net ?w =
      (Some 170500, ?w\<lparr>log := [Attempting ''https://www.policybazaar.com/gold-rate/''],
                        gets := [''https://www.policybazaar.com/gold-rate/'']\<rparr>)"
    by (simp add: fetch_goodreturns_def sources_def scrape_one_def serves_def
        scan_tables_170500 world_with_def logging_def del: scan_tables.simps)
  have g: "fst (get_master_price (1700000000, 0) ?w) = Inl AttributeError"
    by (simp add: get_master_price_def world_with_def cached_def cache_defs ascii_def)
  show ?thesis
    unfolding r using g
    by (simp add: world_with_def cached_def cache_defs ascii_def)
qed

section \<open>Rejected prices\<close>

subsection \<open>The rows of a source are scanned as one sequence\<close>

lemma scan_rows_append:
  "scan_rows (xs @ ys) =
     (case scan_rows xs of
        (l, Continue) \<Rightarrow> (l @ fst (scan_rows ys), snd (scan_rows ys))
      | (l, f) \<Rightarrow> (l, f))"
proof (induction xs)
  case Nil
  show ?case by simp
next
  case (Cons r xs)
  obtain l1 f1 where r: "scan_row r = (l1, f1)" by (cases "scan_row r")
  obtain l2 f2 where xs: "scan_rows xs = (l2, f2)" by (cases "scan_rows xs")
  show ?case
  proof (cases f1)
    case Continue
    with r xs Cons.IH show ?thesis
      by (cases f2) (simp_all add: case_prod_beta)
  next
    case (Return q)
    with r show ?thesis by simp
  next
    case (Raise e)
    with r show ?thesis by simp
  qed
qed

lemma scan_tables_flat:
  "scan_tables tables = scan_rows (concat (map table_rows (filter qualifies tables)))"
proof (induction tables)
  case Nil
  show ?case by simp
next
  case (Cons t tables)
  show ?case
  proof (cases "qualifies t")
    case False
    with Cons.IH show ?thesis by simp
  next
    case True
    obtain l f where r: "scan_rows (table_rows t) = (l, f)"
      by (cases "scan_rows (table_rows t)")
    show ?thesis
      using True r Cons.IH
      by (cases f) (simp_all add: scan_rows_append case_prod_beta)
  qed
qed

lemma scan_rows_rejected_inside:
  assumes "snd (scan_rows pre) = Continue"
    and "1 < length cols" "contains (ascii ''10'') (cols ! 0)"
    and "parse_cell (cols ! 1) = Some p" "\<not> (MIN_VALID_PRICE < p \<and> p < MAX_VALID_PRICE)"
  shows "Rejected p \<in> set (fst (scan_rows (pre @ cols # post)))"
proof -
  obtain l where pre: "scan_rows pre = (l, Continue)"
    using assms(1) by (cases "scan_rows pre") simp
  have "scan_rows (cols # post) = (Rejected p # fst (scan_rows post), snd (scan_rows post))"
    using assms(2-5) by (rule scan_rows_rejected)
  then show ?thesis
    by (simp add: scan_rows_append pre del: scan_rows.simps)
qed

subsection \<open>What a source logs reaches the log\<close>

lemma scrape_one_200:
  assumes "net url = Response 200 tables"
  shows "snd (scrape_one net url)
           = (case snd (scan_tables tables) of Return q \<Rightarrow> Some q | _ \<Rightarrow> None)"
    and "set (fst (scan_tables tables)) \<subseteq> set (fst (scrape_one net url))"
proof -
  obtain l f where st: "scan_tables tables = (l, f)" by (cases "scan_tables tables")
  show "snd (scrape_one net url)
           = (case snd (scan_tables tables) of Return q \<Rightarrow> Some q | _ \<Rightarrow> None)"
    using assms st by (cases f) (simp_all add: scrape_one_def)
  show "set (fst (scan_tables tables)) \<subseteq> set (fst (scrape_one net url))"
    using assms st by (cases f) (auto simp: scrape_one_def)
qed

lemma scrape_sources_log_grows:
  "\<exists>ls. log (snd (scrape_sources net urls w)) = log w @ ls"
proof (induction urls arbitrary: w)
  case Nil
  show ?case by simp
next
  case (Cons url urls)
  obtain l r where s: "scrape_one net url = (l, r)" by (cases "scrape_one net url")
  let ?w1 = "logging l (w\<lparr>gets := gets w @ [url]\<rparr>)"
  show ?case
  proof (cases r)
    case None
    from Cons.IH [of ?w1] obtain ls where "log (snd (scrape_sources net urls ?w1)) = log ?w1 @ ls"
      by blast
    then have "log (snd (scrape_sources net (url # urls) w)) = log w @ (l @ ls)"
      by (simp add: s None logging_def)
    then show ?thesis by blast
  next
    case (Some q)
    have "log (snd (scrape_sources net (url # urls) w)) = log w @ l"
      by (simp add: s Some logging_def)
    then show ?thesis by blast
  qed
qed

lemma scrape_sources_logs_first:
  "set (fst (scrape_one net u)) \<subseteq> set (log (snd (scrape_sources net (u # vs) w)))"
proof -
  obtain l r where s: "scrape_one net u = (l, r)" by (cases "scrape_one net u")
  let ?w1 = "logging l (w\<lparr>gets := gets w @ [u]\<rparr>)"
  show ?thesis
  proof (cases r)
    case None
    from scrape_sources_log_grows [of net vs ?w1]
    obtain ls where "log (snd (scrape_sources net vs ?w1)) = log ?w1 @ ls" by blast
    then show ?thesis by (auto simp: s None logging_def)
  next
    case (Some q)
    then show ?thesis by (auto simp: s logging_def)
  qed
qed

lemma scrape_sources_logs_reached:
  assumes "\<forall>x\<in>set us. snd (scrape_one net x) = None"
  shows "set (fst (scrape_one net u)) \<subseteq> set (log (snd (scrape_sources net (us @ u # vs) w)))"
proof -
  from scrape_sources_skip [OF assms, of "u # vs" w]
  obtain w' where "scrape_sources net (us @ u # vs) w = scrape_sources net (u # vs) w'"
    by blast
  then show ?thesis
    using scrape_sources_logs_first [of net u vs w'] by simp
qed

subsection \<open>Scenario evaluations\<close>

lemma scan_rows_78000: "scan_rows [[ascii ''10 gram'', ascii ''78000'']] = ([Rejected 78000], Continue)"
  by (simp add: scrape_defs text_defs)

lemma scan_rows_156000: "scan_rows [[ascii ''10 gram'', ascii ''156000'']] = ([], Return 156000)"
  by (simp add: scrape_defs text_defs)

lemma qualifies_gold_table: "qualifies (gold_table rows)"
  by (simp add: qualifies_def gold_table_def text_defs)

lemma not_qualifies_silver: "\<not> qualifies \<lparr>table_text = ascii ''Silver'', table_rows = rows\<rparr>"
  by (simp add: qualifies_def text_defs)

text \<open>
  C3, as stated: a source whose markup yields a price outside the band is left for the
  next source, and no value from it is returned. It fails: after the rejected 78000 the
  scan goes on with the next row of the same table and returns 156000 from the same
  source; the second source is never fetched.
\<close>

theorem rejected_row_same_source_returns:
  "fst (fetch_goodreturns
          (serves ''https://www.policybazaar.com/gold-rate/''
             [gold_table [[ascii ''10 gram'', ascii ''78000''],
                          [ascii ''10 gram'', ascii ''156000'']]])
          (world_with None)) = Some 156000
   \<and> gets (snd (fetch_goodreturns
          (serves ''https://www.policybazaar.com/gold-rate/''
             [gold_table [[ascii ''10 gram'', ascii ''78000''],
                          [ascii ''10 gram'', ascii ''156000'']]])
          (world_with None))) = [''https://www.policybazaar.com/gold-rate/'']
   \<and> log (snd (fetch_goodreturns
          (serves ''https://www.policybazaar.com/gold-rate/''
             [gold_table [[ascii ''10 gram'', ascii ''78000''],
                          [ascii ''10 gram'', ascii ''156000'']]])
          (world_with None)))
       = [Attempting ''https://www.policybazaar.com/gold-rate/'', Rejected 78000]"
  by (simp add: fetch_goodreturns_def sources_def scrape_one_def serves_def
      scan_tables_78000_156000 world_with_def logging_def del: scan_tables.simps)

text \<open>
  C3, amended. A price outside the band is rejected with a warning that names it, and
  the scan goes on with the next row: the rows of all the qualifying tables of a source
  are scanned as one sequence, in order. A source that answers 200 gives the first
  validated price of that sequence, and none when the scan ends or raises without one;
  the orchestrator returns the price of a source that gives one and proceeds to the next
  source otherwise. Any price returned lies inside the band, so a rejected value is never
  returned, and the warning for a rejected value of a source that is reached is in the
  log.
\<close>

theorem rejected_price_is_skipped:
  "(1 < length cols \<and> contains (ascii ''10'') (cols ! 0) \<and> parse_cell (cols ! 1) = Some p
      \<and> \<not> (MIN_VALID_PRICE < p \<and> p < MAX_VALID_PRICE)
     \<longrightarrow> scan_rows (cols # rows) = (Rejected p # fst (scan_rows rows), snd (scan_rows rows))
         \<and> level_of (Rejected p) = WARNING)
   \<and> scan_tables tables = scan_rows (concat (map table_rows (filter qualifies tables)))
   \<and> (net url = Response 200 tables
     \<longrightarrow> snd (scrape_one net url)
           = (case snd (scan_tables tables) of Return q \<Rightarrow> Some q | _ \<Rightarrow> None))
   \<and> (snd (scrape_one net url) = None
     \<longrightarrow> scrape_sources net (url # urls) w
           = scrape_sources net urls (logging (fst (scrape_one net url)) (w\<lparr>gets := gets w @ [url]\<rparr>)))
   \<and> (snd (scrape_one net url) = Some q
     \<longrightarrow> scrape_sources net (url # urls) w
           = (Some q, logging (fst (scrape_one net url)) (w\<lparr>gets := gets w @ [url]\<rparr>)))
   \<and> (fst (scrape_sources net urls w) = Some q \<longrightarrow> MIN_VALID_PRICE < q \<and> q < MAX_VALID_PRICE)
   \<and> ((\<forall>x\<in>set us. snd (scrape_one net x) = None) \<and> net u = Response 200 tables
        \<and> concat (map table_rows (filter qualifies tables)) = pre @ cols # post
        \<and> snd (scan_rows pre) = Continue
        \<and> 1 < length cols \<and> contains (ascii ''10'') (cols ! 0) \<and> parse_cell (cols ! 1) = Some p
        \<and> \<not> (MIN_VALID_PRICE < p \<and> p < MAX_VALID_PRICE)
     \<longrightarrow> Rejected p \<in> set (log (snd (scrape_sources net (us @ u # vs) w))))"
proof (intro conjI impI)
  assume "1 < length cols \<and> contains (ascii ''10'') (cols ! 0) \<and> parse_cell (cols ! 1) = Some p
      \<and> \<not> (MIN_VALID_PRICE < p \<and> p < MAX_VALID_PRICE)"
  then show "scan_rows (cols # rows) = (Rejected p # fst (scan_rows rows), snd (scan_rows rows))"
    using scan_rows_rejected by blast
next
  show "level_of (Rejected p) = WARNING" by simp
next
  show "scan_tables tables = scan_rows (concat (map table_rows (filter qualifies tables)))"
    by (rule scan_tables_flat)
next
  assume "net url = Response 200 tables"
  then show "snd (scrape_one net url)
           = (case snd (scan_tables tables) of Return q \<Rightarrow> Some q | _ \<Rightarrow> None)"
    by (rule scrape_one_200)
next
  assume "snd (scrape_one net url) = None"
  then show "scrape_sources net (url # urls) w
           = scrape_sources net urls (logging (fst (scrape_one net url)) (w\<lparr>gets := gets w @ [url]\<rparr>))"
    by (cases "scrape_one net url") simp
next
  assume "snd (scrape_one net url) = Some q"
  then show "scrape_sources net (url # urls) w
           = (Some q, logging (fst (scrape_one net url)) (w\<lparr>gets := gets w @ [url]\<rparr>))"
    by (cases "scrape_one net url") simp
next
  assume "fst (scrape_sources net urls w) = Some q"
  then show "MIN_VALID_PRICE < q" and "q < MAX_VALID_PRICE"
    using scrape_sources_Some by blast+
next
  assume a: "(\<forall>x\<in>set us. snd (scrape_one net x) = None) \<and> net u = Response 200 tables
        \<and> concat (map table_rows (filter qualifies tables)) = pre @ cols # post
        \<and> snd (scan_rows pre) = Continue
        \<and> 1 < length cols \<and> contains (ascii ''10'') (cols ! 0) \<and> parse_cell (cols ! 1) = Some p
        \<and> \<not> (MIN_VALID_PRICE < p \<and> p < MAX_VALID_PRICE)"
  then have "Rejected p \<in> set (fst (scan_rows (pre @ cols # post)))"
    using scan_rows_rejected_inside [of pre cols p post] by blast
  with a have "Rejected p \<in> set (fst (scan_tables tables))"
    by (simp add: scan_tables_flat)
  with a have "Rejected p \<in> set (fst (scrape_one net u))"
    using scrape_one_200(2) [of net u tables] by blast
  with a show "Rejected p \<in> set (log (snd (scrape_sources net (us @ u # vs) w)))"
    using scrape_sources_logs_reached [of us net u vs w] by blast
qed
theorem rejected_price_is_skipped_witness:
  "scan_rows [[ascii ''10 gram'', ascii ''78000''], [ascii ''10 gram'', ascii ''156000'']]
     = ([Rejected 78000], Return 156000)
   \<and> level_of (Rejected 78000) = WARNING
   \<and> scan_tables [gold_table [[ascii ''10 gram'', ascii ''78000'']],
                   \<lparr>table_text = ascii ''Silver'', table_rows = [[ascii ''10 gram'', ascii ''150000'']]\<rparr>,
                   gold_table [[ascii ''10 gram'', ascii ''156000'']]]
     = ([Rejected 78000], Return 156000)
   \<and> scrape_sources
        (serves ''https://www.goodreturns.in/gold-rates/''
           [gold_table [[ascii ''10 gram'', ascii ''78000'']],
            \<lparr>table_text = ascii ''Silver'', table_rows = [[ascii ''10 gram'', ascii ''150000'']]\<rparr>,
            gold_table [[ascii ''10 gram'', ascii ''156000'']]])
        sources (world_with None)
     = (Some 156000,
        \<lparr>cache_file = None,
         log = [Attempting ''https://www.policybazaar.com/gold-rate/'',
                ScrapeError ''https://www.policybazaar.com/gold-rate/'' RequestException,
                Attempting ''https://www.goodreturns.in/gold-rates/'',
                Rejected 78000],
         gets = [''https://www.policybazaar.com/gold-rate/'',
                 ''https://www.goodreturns.in/gold-rates/'']\<rparr>)
   \<and> MIN_VALID_PRICE < 156000 \<and> 156000 < MAX_VALID_PRICE
   \<and> Rejected 78000 \<in> set (log (snd (scrape_sources
        (serves ''https://www.goodreturns.in/gold-rates/''
           [gold_table [[ascii ''10 gram'', ascii ''78000'']],
            \<lparr>table_text = ascii ''Silver'', table_rows = [[ascii ''10 gram'', ascii ''150000'']]\<rparr>,
            gold_table [[ascii ''10 gram'', ascii ''156000'']]])
        sources (world_with None))))"
proof -
  let ?u1 = "''https://www.policybazaar.com/gold-rate/''"
  let ?u2 = "''https://www.goodreturns.in/gold-rates/''"
  let ?u3 = "''https://www.tanishq.co.in/gold-rate.html?lang=en_IN''"
  let ?bad = "[ascii ''10 gram'', ascii ''78000'']"
  let ?good = "[ascii ''10 gram'', ascii ''156000'']"
  let ?silver = "\<lparr>table_text = ascii ''Silver'', table_rows = [[ascii ''10 gram'', ascii ''150000'']]\<rparr>"
  let ?T = "[gold_table [?bad], ?silver, gold_table [?good]]"
  let ?net = "serves ?u2 ?T"
  let ?w = "world_with None"
  let ?w1 = "logging (fst (scrape_one ?net ?u1)) (?w\<lparr>gets := gets ?w @ [?u1]\<rparr>)"
  have src: "sources = ?u1 # [?u2, ?u3]" "sources = [?u1] @ ?u2 # [?u3]"
    by (simp_all add: sources_def)
  have bad: "1 < length ?bad \<and> contains (ascii ''10'') (?bad ! 0)
      \<and> parse_cell (?bad ! 1) = Some 78000
      \<and> \<not> (MIN_VALID_PRICE < 78000 \<and> 78000 < MAX_VALID_PRICE)"
    by (simp add: text_defs MIN_VALID_PRICE_def)
  have flat: "concat (map table_rows (filter qualifies ?T)) = [] @ ?bad # [?good]"
    by (simp add: qualifies_gold_table not_qualifies_silver) (simp add: gold_table_def)
  have pre: "snd (scan_rows []) = Continue" by simp
  have net2: "?net ?u2 = Response 200 ?T" by (simp add: serves_def)
  have one1: "scrape_one ?net ?u1 = ([Attempting ?u1, ScrapeError ?u1 RequestException], None)"
    by (simp add: scrape_one_other_site)
  have us: "\<forall>x\<in>set [?u1]. snd (scrape_one ?net x) = None"
    by (simp add: one1)
  note t = rejected_price_is_skipped
  from t [where cols = ?bad and p = 78000 and rows = "[?good]"] bad
  have r1: "scan_rows (?bad # [?good]) = (Rejected 78000 # fst (scan_rows [?good]), snd (scan_rows [?good]))"
    and r2: "level_of (Rejected 78000) = WARNING"
    by blast+
  have rows: "scan_rows [?bad, ?good] = ([Rejected 78000], Return 156000)"
    using r1 by (simp only: scan_rows_156000 fst_conv snd_conv)
  from t [where tables = ?T] flat
  have tabs: "scan_tables ?T = ([Rejected 78000], Return 156000)"
    using rows by simp
  from t [where net = ?net and url = ?u2 and tables = ?T] net2
  have "snd (scrape_one ?net ?u2) = (case snd (scan_tables ?T) of Return q \<Rightarrow> Some q | _ \<Rightarrow> None)"
    by blast
  then have one2: "snd (scrape_one ?net ?u2) = Some 156000"
    by (simp only: tabs snd_conv flow.case)
  have log2: "fst (scrape_one ?net ?u2) = [Attempting ?u2, Rejected 78000]"
    by (simp add: scrape_one_def serves_def tabs del: scan_tables.simps)
  from t [where net = ?net and url = ?u1 and urls = "[?u2, ?u3]" and w = ?w] one1
  have s1: "scrape_sources ?net (?u1 # [?u2, ?u3]) ?w = scrape_sources ?net [?u2, ?u3] ?w1"
    by simp
  from t [where net = ?net and url = ?u2 and q = 156000 and urls = "[?u3]" and w = ?w1] one2
  have s2: "scrape_sources ?net (?u2 # [?u3]) ?w1
      = (Some 156000, logging (fst (scrape_one ?net ?u2)) (?w1\<lparr>gets := gets ?w1 @ [?u2]\<rparr>))"
    by blast
  have res: "scrape_sources ?net sources ?w
      = (Some 156000,
         \<lparr>cache_file = None,
          log = [Attempting ?u1, ScrapeError ?u1 RequestException, Attempting ?u2, Rejected 78000],
          gets = [?u1, ?u2]\<rparr>)"
    unfolding src(1) s1 s2 by (simp add: one1 log2 logging_def world_with_def)
  from t [where net = ?net and urls = sources and w = ?w and q = 156000] res
  have band: "MIN_VALID_PRICE < 156000 \<and> 156000 < MAX_VALID_PRICE"
    by simp
  from t [where us = "[?u1]" and net = ?net and u = ?u2 and tables = ?T and pre = "[]"
      and cols = ?bad and post = "[?good]" and p = 78000 and vs = "[?u3]" and w = ?w]
    us net2 flat pre bad
  have "Rejected 78000 \<in> set (log (snd (scrape_sources ?net ([?u1] @ ?u2 # [?u3]) ?w)))"
    by blast
  then have inlog: "Rejected 78000 \<in> set (log (snd (scrape_sources ?net sources ?w)))"
    by (simp only: src(2) [symmetric])
  from rows r2 tabs res band inlog show ?thesis by blast
qed

section \<open>First success ends the refresh\<close>

text \<open>
  C4. When the sources before \<open>u\<close> give no validated price and \<open>u\<close> gives \<open>p\<close>, the
  refresh returns \<open>p\<close>, a price inside the band, and has fetched exactly the sources up
  to \<open>u\<close>: none after it. When no source gives a validated price the refresh returns
  absent, having fetched every source; the function raises nothing in either case.
\<close>

theorem first_success_short_circuit:
  "(urls = us @ u # vs \<and> (\<forall>x\<in>set us. snd (scrape_one net x) = None)
      \<and> snd (scrape_one net u) = Some p
     \<longrightarrow> fst (scrape_sources net urls w) = Some p
         \<and> gets (snd (scrape_sources net urls w)) = gets w @ us @ [u]
         \<and> MIN_VALID_PRICE < p \<and> p < MAX_VALID_PRICE)
   \<and> ((\<forall>x\<in>set urls. snd (scrape_one net x) = None)
     \<longrightarrow> fst (scrape_sources net urls w) = None
         \<and> gets (snd (scrape_sources net urls w)) = gets w @ urls)"
proof (intro conjI impI)
  assume a: "urls = us @ u # vs \<and> (\<forall>x\<in>set us. snd (scrape_one net x) = None)
      \<and> snd (scrape_one net u) = Some p"
  then obtain w' where w': "scrape_sources net (us @ u # vs) w = scrape_sources net (u # vs) w'"
      "gets w' = gets w @ us"
    using scrape_sources_skip [of us net "u # vs" w] by blast
  obtain l where s: "scrape_one net u = (l, Some p)"
    using a by (cases "scrape_one net u") simp
  show "fst (scrape_sources net urls w) = Some p"
    using a w' s by simp
  show "gets (snd (scrape_sources net urls w)) = gets w @ us @ [u]"
    using a w' s by (simp add: logging_def)
  show "MIN_VALID_PRICE < p" "p < MAX_VALID_PRICE"
    using a scrape_one_Some [of net u p] by simp_all
next
  assume b: "\<forall>x\<in>set urls. snd (scrape_one net x) = None"
  then obtain w' where w': "scrape_sources net (urls @ []) w = scrape_sources net [] w'"
      "gets w' = gets w @ urls"
    using scrape_sources_skip [of urls net "[]" w] by blast
  then show "fst (scrape_sources net urls w) = None"
    and "gets (snd (scrape_sources net urls w)) = gets w @ urls"
    by simp_all
qed

theorem first_success_short_circuit_witness:
  "fst (fetch_goodreturns (serves ''https://www.goodreturns.in/gold-rates/''
                        [gold_table [[ascii ''10 gram'', 8377 # ascii ''1,70,500'']]]) (world_with None))
     = Some 170500
   \<and> gets (snd (fetch_goodreturns (serves ''https://www.goodreturns.in/gold-rates/''
                        [gold_table [[ascii ''10 gram'', 8377 # ascii ''1,70,500'']]]) (world_with None)))
     = [''https://www.policybazaar.com/gold-rate/'', ''https://www.goodreturns.in/gold-rates/'']
   \<and> fst (fetch_goodreturns (\<lambda>url. Failed) (world_with None)) = None
   \<and> gets (snd (fetch_goodreturns (\<lambda>url. Failed) (world_with None))) = sources"
proof -
  let ?u1 = "''https://www.policybazaar.com/gold-rate/''"
  let ?u2 = "''https://www.goodreturns.in/gold-rates/''"
  let ?u3 = "''https://www.tanishq.co.in/gold-rate.html?lang=en_IN''"
  let ?good = "serves ?u2 [gold_table [[ascii ''10 gram'', 8377 # ascii ''1,70,500'']]]"
  have s: "sources = [?u1] @ ?u2 # [?u3]"
    by (simp add: sources_def)
  have h1: "\<forall>x\<in>set [?u1]. snd (scrape_one ?good x) = None"
    by (simp add: scrape_one_other_site)
  have h2: "snd (scrape_one ?good ?u2) = Some 170500"
    by (simp add: scrape_one_170500)
  have h3: "\<forall>x\<in>set sources. snd (scrape_one (\<lambda>url. Failed) x) = None"
    by (simp add: scrape_one_def)
  from first_success_short_circuit [of sources "[?u1]" ?u2 "[?u3]" ?good 170500 "world_with None"]
    s h1 h2
  have a: "fst (scrape_sources ?good sources (world_with None)) = Some 170500
      \<and> gets (snd (scrape_sources ?good sources (world_with None))) = gets (world_with None) @ [?u1] @ [?u2]"
    by blast
  from first_success_short_circuit [of sources _ _ _ "\<lambda>url. Failed" _ "world_with None"] h3
  have b: "fst (scrape_sources (\<lambda>url. Failed) sources (world_with None)) = None
      \<and> gets (snd (scrape_sources (\<lambda>url. Failed) sources (world_with None)))
          = gets (world_with None) @ sources"
    by blast
  show ?thesis
    using a b by (simp add: fetch_goodreturns_def world_with_def)
qed

section \<open>The freshness window\<close>

subsection \<open>Rounding and the window\<close>







section \<open>Records that are not well-formed\<close>

lemma to_double_zero [simp]: "to_double 0 0 = Some (0, 0)"
  by (simp add: to_double_def round_shift_def Let_def)

lemma to_double_one [simp]: "to_double 1 0 = Some (1, 0)"
  by (simp add: to_double_def round_shift_def Let_def)

lemmas load_defs = load_def load_data_def dict_get_def time_minus_def

text \<open>
  C6, as stated: a record with a field missing or unparseable is treated as absent by
  every load, and no price value is surfaced from it. It fails in five ways. A record
  without timestamp is read as captured at time 0, and \<open>load(True)\<close> returns its price.
  A price that is not a number (\<open>"abc"\<close>) is returned as it is stored. A timestamp
  \<open>true\<close> counts as the number 1, and \<open>load(True)\<close> returns the price. So it does for
  the timestamp \<open>NaN\<close>; and for the timestamp \<open>Infinity\<close> even \<open>load(False)\<close>
  returns the price.
\<close>

theorem load_surfaces_malformed_records:
  "fst (load True (1700000000, 0) (stored [(''price'', PInt 165000)])) = PInt 165000
   \<and> fst (load False (1700000000, 0)
          (stored [(''price'', PStr (ascii ''abc'')),
                   (''timestamp'', PFloat (Fin (1699999000, 0)))])) = PStr (ascii ''abc'')
   \<and> fst (load True (1700000000, 0)
          (stored [(''price'', PInt 165000), (''timestamp'', PBool True)])) = PInt 165000
   \<and> fst (load True (1700000000, 0)
          (stored [(''price'', PInt 165000), (''timestamp'', PFloat NaN)])) = PInt 165000
   \<and> fst (load False (1700000000, 0)
          (stored [(''price'', PInt 165000), (''timestamp'', PFloat PosInf)])) = PInt 165000"
  by (simp add: stored_def world_with_def cache_defs ascii_def)

text \<open>
  C6, amended. Every load returns absent for a file that does not parse, for content
  that is not a JSON object, for a record whose timestamp is null, a string, a list, an
  object or an integer of magnitude \<open>2^1024 - 2^970\<close> or more, and for a record
  without a price. In every other case \<open>load(True)\<close> returns the price field as it is
  stored, whatever its type, and \<open>load(False)\<close> returns it when the float
  \<open>now - timestamp\<close> is below 3600 and absent otherwise, where a missing timestamp
  counts as 0, a boolean as 1 or 0, and an integer as its float: never for the timestamps
  \<open>NaN\<close> and \<open>-Infinity\<close>, always for \<open>Infinity\<close>.
\<close>

theorem load_of_malformed_record:
  "(cache_file w = Some Corrupt \<longrightarrow> fst (load ie now w) = PNone)
   \<and> (cache_file w = Some (Json d) \<and> (\<forall>kvs. d \<noteq> PDict kvs) \<longrightarrow> fst (load ie now w) = PNone)
   \<and> (cache_file w = Some (Json (PDict kvs)) \<and> map_of kvs (ascii ''timestamp'') = Some ts
        \<and> (ts = PNone \<or> (\<exists>s. ts = PStr s) \<or> (\<exists>l. ts = PList l) \<or> (\<exists>m. ts = PDict m)
             \<or> (\<exists>i. ts = PInt i \<and> 2 ^ 1024 - 2 ^ 970 \<le> \<bar>i\<bar>))
        \<longrightarrow> fst (load ie now w) = PNone)
   \<and> (cache_file w = Some (Json (PDict kvs)) \<and> map_of kvs (ascii ''price'') = None
        \<longrightarrow> fst (load ie now w) = PNone)
   \<and> (cache_file w = Some (Json (PDict kvs)) \<and> map_of kvs (ascii ''price'') = Some v
        \<and> map_of kvs (ascii ''timestamp'') = None
        \<longrightarrow> fst (load True now w) = v
            \<and> fst (load False now w)
                = (if float_lt (float_sub now (0, 0)) CACHE_EXPIRY_SECONDS then v else PNone))
   \<and> (cache_file w = Some (Json (PDict kvs)) \<and> map_of kvs (ascii ''price'') = Some v
        \<and> map_of kvs (ascii ''timestamp'') = Some (PBool b)
        \<longrightarrow> fst (load True now w) = v
            \<and> fst (load False now w)
                = (if float_lt (float_sub now (if b then (1, 0) else (0, 0))) CACHE_EXPIRY_SECONDS
                   then v else PNone))
   \<and> (cache_file w = Some (Json (PDict kvs)) \<and> map_of kvs (ascii ''price'') = Some v
        \<and> map_of kvs (ascii ''timestamp'') = Some (PFloat NaN)
        \<longrightarrow> fst (load True now w) = v \<and> fst (load False now w) = PNone)
   \<and> (cache_file w = Some (Json (PDict kvs)) \<and> map_of kvs (ascii ''price'') = Some v
        \<and> map_of kvs (ascii ''timestamp'') = Some (PFloat PosInf)
        \<longrightarrow> fst (load True now w) = v \<and> fst (load False now w) = v)
   \<and> (cache_file w = Some (Json (PDict kvs)) \<and> map_of kvs (ascii ''price'') = Some v
        \<and> map_of kvs (ascii ''timestamp'') = Some (PFloat NegInf)
        \<longrightarrow> fst (load True now w) = v \<and> fst (load False now w) = PNone)
   \<and> (cache_file w = Some (Json (PDict kvs)) \<and> map_of kvs (ascii ''price'') = Some v
        \<and> map_of kvs (ascii ''timestamp'') = Some ts
        \<and> (ts = PFloat (Fin t) \<or> (\<exists>i. ts = PInt i \<and> to_double i 0 = Some t))
        \<longrightarrow> fst (load True now w) = v
            \<and> fst (load False now w)
                = (if float_lt (float_sub now t) CACHE_EXPIRY_SECONDS then v else PNone))"
proof (intro conjI impI)
  show "fst (load ie now w) = PNone" if "cache_file w = Some Corrupt"
    using that by (simp add: load_def)
  show "fst (load ie now w) = PNone" if "cache_file w = Some (Json d) \<and> (\<forall>kvs. d \<noteq> PDict kvs)"
    using that by (cases d) (simp_all add: load_def load_data_def dict_get_def)
  show "fst (load ie now w) = PNone"
    if "cache_file w = Some (Json (PDict kvs)) \<and> map_of kvs (ascii ''timestamp'') = Some ts
        \<and> (ts = PNone \<or> (\<exists>s. ts = PStr s) \<or> (\<exists>l. ts = PList l) \<or> (\<exists>m. ts = PDict m)
             \<or> (\<exists>i. ts = PInt i \<and> 2 ^ 1024 - 2 ^ 970 \<le> \<bar>i\<bar>))"
  proof -
    from that consider
      (other) "ts = PNone \<or> (\<exists>s. ts = PStr s) \<or> (\<exists>l. ts = PList l) \<or> (\<exists>m. ts = PDict m)"
      | (large) i where "ts = PInt i" "2 ^ 1024 - 2 ^ 970 \<le> \<bar>i\<bar>"
      by blast
    then have "\<exists>e. time_minus now ts = Inl e"
    proof cases
      case other
      then show ?thesis by (auto simp: time_minus_def)
    next
      case large
      then have "float_of_int_raises i" by (simp only: float_of_int_raises_def)
      then have "to_double i 0 = None" by (simp only: to_double_int_None_iff)
      with large show ?thesis by (simp add: time_minus_def)
    qed
    with that show ?thesis
      by (auto simp: load_def load_data_def dict_get_def)
  qed
  show "fst (load ie now w) = PNone"
    if "cache_file w = Some (Json (PDict kvs)) \<and> map_of kvs (ascii ''price'') = None"
    using that
    by (simp add: load_def load_data_def dict_get_def split: option.splits sum.splits)
next
  assume a: "cache_file w = Some (Json (PDict kvs)) \<and> map_of kvs (ascii ''price'') = Some v
        \<and> map_of kvs (ascii ''timestamp'') = None"
  show "fst (load True now w) = v" using a by (simp add: load_defs)
  show "fst (load False now w)
          = (if float_lt (float_sub now (0, 0)) CACHE_EXPIRY_SECONDS then v else PNone)"
    using a by (simp add: load_defs)
next
  assume a: "cache_file w = Some (Json (PDict kvs)) \<and> map_of kvs (ascii ''price'') = Some v
        \<and> map_of kvs (ascii ''timestamp'') = Some (PBool b)"
  show "fst (load True now w) = v" using a by (simp add: load_defs)
  show "fst (load False now w)
          = (if float_lt (float_sub now (if b then (1, 0) else (0, 0))) CACHE_EXPIRY_SECONDS
             then v else PNone)"
    using a by (simp add: load_defs)
next
  assume a: "cache_file w = Some (Json (PDict kvs)) \<and> map_of kvs (ascii ''price'') = Some v
        \<and> map_of kvs (ascii ''timestamp'') = Some (PFloat NaN)"
  show "fst (load True now w) = v" using a by (simp add: load_defs)
  show "fst (load False now w) = PNone" using a by (simp add: load_defs)
next
  assume a: "cache_file w = Some (Json (PDict kvs)) \<and> map_of kvs (ascii ''price'') = Some v
        \<and> map_of kvs (ascii ''timestamp'') = Some (PFloat PosInf)"
  show "fst (load True now w) = v" using a by (simp add: load_defs)
  show "fst (load False now w) = v" using a by (simp add: load_defs)
next
  assume a: "cache_file w = Some (Json (PDict kvs)) \<and> map_of kvs (ascii ''price'') = Some v
        \<and> map_of kvs (ascii ''timestamp'') = Some (PFloat NegInf)"
  show "fst (load True now w) = v" using a by (simp add: load_defs)
  show "fst (load False now w) = PNone" using a by (simp add: load_defs)
next
  assume a: "cache_file w = Some (Json (PDict kvs)) \<and> map_of kvs (ascii ''price'') = Some v
        \<and> map_of kvs (ascii ''timestamp'') = Some ts
        \<and> (ts = PFloat (Fin t) \<or> (\<exists>i. ts = PInt i \<and> to_double i 0 = Some t))"
  then have tm: "time_minus now ts = Inr (float_sub now t)"
    by (auto simp: time_minus_def)
  show "fst (load True now w) = v"
    using a tm by (simp add: load_def load_data_def dict_get_def)
  show "fst (load False now w)
          = (if float_lt (float_sub now t) CACHE_EXPIRY_SECONDS then v else PNone)"
    using a tm by (simp add: load_def load_data_def dict_get_def)
qed
theorem load_of_malformed_record_witness:
  "fst (load False (1700000000, 0) (world_with (Some Corrupt))) = PNone
   \<and> fst (load True (1700000000, 0) (world_with (Some Corrupt))) = PNone
   \<and> fst (load True (1700000000, 0) (world_with (Some (Json (PList [PInt 165000]))))) = PNone
   \<and> fst (load True (1700000000, 0)
          (stored [(''price'', PInt 165000), (''timestamp'', PStr (ascii ''yesterday''))])) = PNone
   \<and> fst (load True (1700000000, 0)
          (stored [(''price'', PInt 165000), (''timestamp'', PInt (2 ^ 1024))])) = PNone
   \<and> fst (load True (1700000000, 0)
          (stored [(''timestamp'', PFloat (Fin (1699999000, 0)))])) = PNone
   \<and> fst (load True (1700000000, 0) (stored [(''price'', PInt 165000)])) = PInt 165000
   \<and> fst (load False (1700000000, 0) (stored [(''price'', PInt 165000)])) = PNone
   \<and> fst (load True (1700000000, 0)
          (stored [(''price'', PInt 165000), (''timestamp'', PBool True)])) = PInt 165000
   \<and> fst (load False (1700000000, 0)
          (stored [(''price'', PInt 165000), (''timestamp'', PBool True)])) = PNone
   \<and> fst (load False (3000, 0)
          (stored [(''price'', PInt 165000), (''timestamp'', PBool True)])) = PInt 165000
   \<and> fst (load True (1700000000, 0)
          (stored [(''price'', PInt 165000), (''timestamp'', PFloat NaN)])) = PInt 165000
   \<and> fst (load False (1700000000, 0)
          (stored [(''price'', PInt 165000), (''timestamp'', PFloat NaN)])) = PNone
   \<and> fst (load False (1700000000, 0)
          (stored [(''price'', PInt 165000), (''timestamp'', PFloat PosInf)])) = PInt 165000
   \<and> fst (load True (1700000000, 0)
          (stored [(''price'', PInt 165000), (''timestamp'', PFloat NegInf)])) = PInt 165000
   \<and> fst (load False (1700000000, 0)
          (stored [(''price'', PInt 165000), (''timestamp'', PFloat NegInf)])) = PNone
   \<and> fst (load False (1700000000, 0)
          (stored [(''price'', PStr (ascii ''abc'')),
                   (''timestamp'', PFloat (Fin (1699999000, 0)))])) = PStr (ascii ''abc'')"
proof -
  let ?now = "(1700000000, 0) :: double"
  let ?P = "(ascii ''price'', PInt 165000)"
  let ?T = "\<lambda>ts. (ascii ''timestamp'', ts)"
  note t = load_of_malformed_record
  have content: "cache_file (stored items) = Some (Json (PDict (map (\<lambda>(k, v). (ascii k, v)) items)))"
    for items
    by (simp add: stored_def world_with_def)
  have price: "map_of [?P] (ascii ''price'') = Some (PInt 165000)"
    "map_of [?P, ?T ts] (ascii ''price'') = Some (PInt 165000)" for ts
    by (simp_all add: ascii_def)
  have stamp: "map_of [?P, ?T ts] (ascii ''timestamp'') = Some ts"
    "map_of [?P] (ascii ''timestamp'') = None" for ts
    by (simp_all add: ascii_def)
  have old: "\<not> float_lt (float_sub ?now (0, 0)) CACHE_EXPIRY_SECONDS"
    "\<not> float_lt (float_sub ?now (1, 0)) CACHE_EXPIRY_SECONDS"
    "float_lt (float_sub (3000, 0) (1, 0)) CACHE_EXPIRY_SECONDS"
    "float_lt (float_sub ?now (1699999000, 0)) CACHE_EXPIRY_SECONDS"
    by (simp_all add: cache_defs)
  have c1: "fst (load ie ?now (world_with (Some Corrupt))) = PNone" for ie
    using t [where w = "world_with (Some Corrupt)" and ie = ie and now = ?now]
    by (simp add: world_with_def)
  have c2: "fst (load True ?now (world_with (Some (Json (PList [PInt 165000]))))) = PNone"
    using t [where w = "world_with (Some (Json (PList [PInt 165000])))" and ie = True
        and now = ?now and d = "PList [PInt 165000]"]
    by (simp add: world_with_def)
  have c3: "fst (load True ?now (stored [(''price'', PInt 165000),
        (''timestamp'', PStr (ascii ''yesterday''))])) = PNone"
    using t [where w = "stored [(''price'', PInt 165000),
          (''timestamp'', PStr (ascii ''yesterday''))]"
        and ie = True and now = ?now and kvs = "[?P, ?T (PStr (ascii ''yesterday''))]"
        and ts = "PStr (ascii ''yesterday'')"]
      content stamp(1)
    by simp
  have big: "2 ^ 1024 - 2 ^ 970 \<le> \<bar>2 ^ 1024 :: int\<bar>"
    by simp
  have c4: "fst (load True ?now (stored [(''price'', PInt 165000),
        (''timestamp'', PInt (2 ^ 1024))])) = PNone"
    using t [where w = "stored [(''price'', PInt 165000), (''timestamp'', PInt (2 ^ 1024))]"
        and ie = True and now = ?now and kvs = "[?P, ?T (PInt (2 ^ 1024))]"
        and ts = "PInt (2 ^ 1024)"]
      content stamp(1) big
    by simp
  have c5: "fst (load True ?now (stored [(''timestamp'', PFloat (Fin (1699999000, 0)))])) = PNone"
    using t [where w = "stored [(''timestamp'', PFloat (Fin (1699999000, 0)))]"
        and ie = True and now = ?now and kvs = "[?T (PFloat (Fin (1699999000, 0)))]"]
      content
    by (simp add: ascii_def)
  have c6: "fst (load True ?now (stored [(''price'', PInt 165000)])) = PInt 165000
      \<and> fst (load False ?now (stored [(''price'', PInt 165000)])) = PNone"
    using t [where w = "stored [(''price'', PInt 165000)]" and now = ?now and kvs = "[?P]"
        and v = "PInt 165000"]
      content price(1) stamp(2) old
    by simp
  have c7: "fst (load True ?now (stored [(''price'', PInt 165000),
        (''timestamp'', PBool True)])) = PInt 165000
      \<and> fst (load False ?now (stored [(''price'', PInt 165000),
        (''timestamp'', PBool True)])) = PNone"
    using t [where w = "stored [(''price'', PInt 165000), (''timestamp'', PBool True)]"
        and now = ?now and kvs = "[?P, ?T (PBool True)]" and v = "PInt 165000" and b = True]
      content price(2) stamp(1) old
    by simp
  have c8: "fst (load False (3000, 0) (stored [(''price'', PInt 165000),
        (''timestamp'', PBool True)])) = PInt 165000"
    using t [where w = "stored [(''price'', PInt 165000), (''timestamp'', PBool True)]"
        and now = "(3000, 0)" and kvs = "[?P, ?T (PBool True)]" and v = "PInt 165000"
        and b = True]
      content price(2) stamp(1) old
    by simp
  have c9: "fst (load True ?now (stored [(''price'', PInt 165000),
        (''timestamp'', PFloat NaN)])) = PInt 165000
      \<and> fst (load False ?now (stored [(''price'', PInt 165000),
        (''timestamp'', PFloat NaN)])) = PNone"
    using t [where w = "stored [(''price'', PInt 165000), (''timestamp'', PFloat NaN)]"
        and now = ?now and kvs = "[?P, ?T (PFloat NaN)]" and v = "PInt 165000"]
      content price(2) stamp(1)
    by simp
  have c10: "fst (load False ?now (stored [(''price'', PInt 165000),
        (''timestamp'', PFloat PosInf)])) = PInt 165000"
    using t [where w = "stored [(''price'', PInt 165000), (''timestamp'', PFloat PosInf)]"
        and now = ?now and kvs = "[?P, ?T (PFloat PosInf)]" and v = "PInt 165000"]
      content price(2) stamp(1)
    by simp
  have c11: "fst (load True ?now (stored [(''price'', PInt 165000),
        (''timestamp'', PFloat NegInf)])) = PInt 165000
      \<and> fst (load False ?now (stored [(''price'', PInt 165000),
        (''timestamp'', PFloat NegInf)])) = PNone"
    using t [where w = "stored [(''price'', PInt 165000), (''timestamp'', PFloat NegInf)]"
        and now = ?now and kvs = "[?P, ?T (PFloat NegInf)]" and v = "PInt 165000"]
      content price(2) stamp(1)
    by simp
  have abc: "map_of [(ascii ''price'', PStr (ascii ''abc'')),
        ?T (PFloat (Fin (1699999000, 0)))] (ascii ''price'') = Some (PStr (ascii ''abc''))"
    "map_of [(ascii ''price'', PStr (ascii ''abc'')),
        ?T (PFloat (Fin (1699999000, 0)))] (ascii ''timestamp'')
      = Some (PFloat (Fin (1699999000, 0)))"
    by (simp_all add: ascii_def)
  have c12: "fst (load False ?now (stored [(''price'', PStr (ascii ''abc'')),
        (''timestamp'', PFloat (Fin (1699999000, 0)))])) = PStr (ascii ''abc'')"
    using t [where w = "stored [(''price'', PStr (ascii ''abc'')),
          (''timestamp'', PFloat (Fin (1699999000, 0)))]"
        and now = ?now and kvs = "[(ascii ''price'', PStr (ascii ''abc'')),
          ?T (PFloat (Fin (1699999000, 0)))]"
        and v = "PStr (ascii ''abc'')" and ts = "PFloat (Fin (1699999000, 0))"
        and t = "(1699999000, 0)"]
      content abc old
    by simp
  from c1 [of False] c1 [of True] c2 c3 c4 c5 c6 c7 c8 c9 c10 c11 c12 show ?thesis
    by blast
qed

section \<open>Price validation\<close>

text \<open>
  C7. For every integer \<open>p\<close> the validation predicate is true exactly when
  \<open>MIN_VALID_PRICE < p < MAX_VALID_PRICE\<close>, both bounds exclusive: it is false at both
  bounds and true one inside each.
\<close>

theorem validate_price_exclusive_band:
  "fst (validate_price p) = (MIN_VALID_PRICE < p \<and> p < MAX_VALID_PRICE)
   \<and> fst (validate_price MIN_VALID_PRICE) = False
   \<and> fst (validate_price MAX_VALID_PRICE) = False
   \<and> fst (validate_price (MIN_VALID_PRICE + 1)) = True
   \<and> fst (validate_price (MAX_VALID_PRICE - 1)) = True"
  by (simp add: validate_price_def MIN_VALID_PRICE_def MAX_VALID_PRICE_def)

section \<open>Currency text\<close>

lemma contains_Cons_mem: "contains (x # xs) s \<Longrightarrow> x \<in> set s"
  by (induction s) auto

lemma py_int_digits:
  assumes ne: "ds \<noteq> []" and dig: "\<forall>c\<in>set ds. is_digit c" and len: "length ds \<le> 4300"
  shows "py_int ds = Some (digits_value ds)"
proof -
  obtain c r where ds: "ds = c # r" using ne by (cases ds) auto
  have c: "is_digit c" using dig ds by simp
  have asc: "map to_ascii ds = ds"
    using dig by (intro map_idI) (auto simp: to_ascii_def is_digit_def)
  have sp: "dropWhile c_isspace ds = ds"
    using c ds by (auto simp: c_isspace_def is_digit_def)
  have tw: "takeWhile (\<lambda>c. is_digit c \<or> c = 95) ds = ds"
    using dig by (simp add: takeWhile_eq_all_conv)
  have dw: "dropWhile (\<lambda>c. is_digit c \<or> c = 95) ds = []"
    using dig by simp
  have fl: "filter is_digit ds = ds"
    using dig by simp
  have u: "95 \<notin> set ds"
    using dig by (auto simp: is_digit_def)
  have nl: "last ds \<noteq> 95"
    using u ne last_in_set [of ds] by metis
  have nc: "\<not> contains [95, 95] ds"
    using u contains_Cons_mem by blast
  have c45: "c \<noteq> 45" "c \<noteq> 43" "c \<noteq> 95"
    using c by (auto simp: is_digit_def)
  have cs: "(case ds of [] \<Rightarrow> (False, [])
              | c # r \<Rightarrow> if c = 45 then (True, r) else if c = 43 then (False, r) else (False, ds))
            = (False, ds)"
    using ds c45 by simp
  show ?thesis
    unfolding py_int_def Let_def asc sp cs prod.case tw dw fl
    using c45 nl nc len by (simp add: ds)
qed

text \<open>
  C8. The cell text is stripped of surrounding white space, then every rupee sign, comma
  and full stop is removed, and what remains is read by \<open>int\<close>; a non-empty string of
  at most 4300 ASCII digits is read as its decimal value. So \<open>1,68,450\<close> gives 168450,
  and the rupee sign U+20B9 followed by \<open>1,68,450.00\<close> gives 16845000.
\<close>

theorem currency_text_normalization:
  "clean_str cell = filter (\<lambda>c. c \<notin> {8377, 44, 46}) (strip cell)
   \<and> parse_cell cell = py_int (filter (\<lambda>c. c \<notin> {8377, 44, 46}) (strip cell))
   \<and> (ds \<noteq> [] \<and> (\<forall>c\<in>set ds. is_digit c) \<and> length ds \<le> 4300
        \<longrightarrow> py_int ds = Some (digits_value ds))
   \<and> parse_cell (ascii ''1,68,450'') = Some 168450
   \<and> parse_cell (8377 # ascii ''1,68,450.00'') = Some 16845000"
proof (intro conjI impI)
  show c: "clean_str cell = filter (\<lambda>c. c \<notin> {8377, 44, 46}) (strip cell)"
    by (auto simp: clean_str_def replace_char_def intro: filter_cong)
  show "parse_cell cell = py_int (filter (\<lambda>c. c \<notin> {8377, 44, 46}) (strip cell))"
    by (simp add: parse_cell_def c)
  show "py_int ds = Some (digits_value ds)"
    if "ds \<noteq> [] \<and> (\<forall>c\<in>set ds. is_digit c) \<and> length ds \<le> 4300"
    using that py_int_digits by blast
  show "parse_cell (ascii ''1,68,450'') = Some 168450"
    by (simp add: text_defs)
  show "parse_cell (8377 # ascii ''1,68,450.00'') = Some 16845000"
    by (simp add: text_defs)
qed

theorem currency_text_normalization_witness:
  "clean_str (ascii '' 1,68,450.00 '') = ascii ''16845000''
   \<and> py_int (ascii ''16845000'') = Some (digits_value (ascii ''16845000''))
   \<and> digits_value (ascii ''16845000'') = 16845000"
proof -
  have h: "ascii ''16845000'' \<noteq> [] \<and> (\<forall>c\<in>set (ascii ''16845000''). is_digit c)
      \<and> length (ascii ''16845000'') \<le> 4300"
    by (simp add: ascii_def is_digit_def)
  have s: "filter (\<lambda>c. c \<notin> {8377, 44, 46}) (strip (ascii '' 1,68,450.00 '')) = ascii ''16845000''"
    by (simp add: ascii_def strip_def isspace_def)
  have v: "digits_value (ascii ''16845000'') = 16845000"
    by (simp add: ascii_def digits_value_def)
  from currency_text_normalization [of "ascii '' 1,68,450.00 ''" "ascii ''16845000''"] h s v
  show ?thesis by simp
qed


section \<open>The charts end at the base price\<close>

lemma week_loop_data:
  "snd (week_loop fmt today b js (ls, ds))
   = ds @ map (\<lambda>i. b + variance_pattern ! (6 - i)) js"
  by (induction js arbitrary: ls ds) simp_all

lemma month_loop_length:
  "length (snd (month_loop fmt rnd today b js k cur (ls, ds))) = length ds + length js"
  by (induction js arbitrary: k cur ls ds) (simp_all add: Let_def)

lemma month_loop_last:
  "last (snd (month_loop fmt rnd today b (js @ [0]) k cur (ls, ds))) = b"
  by (induction js arbitrary: k cur ls ds) (simp_all add: Let_def)

lemma down_from_Suc: "down_from (Suc n) = map Suc (down_from n) @ [0]"
proof -
  have "[0..<Suc n] = 0 # map Suc [0..<n]"
    by (simp add: upt_conv_Cons map_Suc_upt del: upt_Suc)
  then show ?thesis
    by (simp add: down_from_def rev_map del: upt_Suc)
qed

lemma length_down_from: "length (down_from n) = n"
  by (simp add: down_from_def)

text \<open>
  C9. For every base price, and whatever the random numbers and the date are, the weekly
  series has 7 values and the monthly series 30, and the last value of each is the base
  price.
\<close>

theorem charts_end_at_base_price:
  "length (data (weekly (generate_charts fmt_a fmt_d_b rnd today base_price))) = 7
   \<and> last (data (weekly (generate_charts fmt_a fmt_d_b rnd today base_price))) = base_price
   \<and> length (data (monthly (generate_charts fmt_a fmt_d_b rnd today base_price))) = 30
   \<and> last (data (monthly (generate_charts fmt_a fmt_d_b rnd today base_price))) = base_price"
proof -
  obtain wl wd where w: "week_loop fmt_a today base_price (down_from 7) ([], []) = (wl, wd)"
    by (cases "week_loop fmt_a today base_price (down_from 7) ([], [])")
  obtain ml md where m: "month_loop fmt_d_b rnd today base_price (down_from 30) 0
      (base_price - 1500) ([], []) = (ml, md)"
    by (cases "month_loop fmt_d_b rnd today base_price (down_from 30) 0
      (base_price - 1500) ([], [])")
  have wd: "wd = map (\<lambda>i. base_price + variance_pattern ! (6 - i)) (down_from 7)"
    using week_loop_data [of fmt_a today base_price "down_from 7" "[]" "[]"] w by simp
  have seven: "down_from 7 = [6, 5, 4, 3, 2, 1, 0]"
    by (simp add: down_from_def upt_rec numeral_nat)
  have w_len: "length wd = 7"
    by (simp add: wd length_down_from)
  have w_last: "last wd = base_price"
    by (simp add: wd seven variance_pattern_def)
  have m_len: "length md = 30"
    using month_loop_length [of fmt_d_b rnd today base_price "down_from 30" 0
        "base_price - 1500" "[]" "[]"] m
    by (simp add: length_down_from)
  have thirty: "down_from 30 = map Suc (down_from 29) @ [0]"
    using down_from_Suc [of 29] by simp
  have m_last: "last md = base_price"
    using month_loop_last [of fmt_d_b rnd today base_price "map Suc (down_from 29)" 0
        "base_price - 1500" "[]" "[]"] m
    by (simp add: thirty)
  show ?thesis
    using w_len w_last m_len m_last by (simp add: generate_charts_def w m)
qed

section \<open>One entry for every region\<close>

subsection \<open>The loop and the sort\<close>

lemma map_insort_key: "map f (insort_key f x xs) = insort (f x) (map f xs)"
  by (induction xs) simp_all

lemma map_sort_key: "map f (sort_key f xs) = sort (map f xs)"
  by (induction xs) (simp_all add: map_insort_key)

lemma states_loop_Inr:
  assumes "\<forall>x\<in>set items. \<exists>v. int_times_float (snd x) c_0_9 = Inr v"
  shows "\<exists>rs. states_loop b24 b22 items = Inr rs
           \<and> map name rs = map fst items
           \<and> (\<forall>e\<in>set rs. \<exists>off o22. (name e, off) \<in> set items
                  \<and> int_times_float off c_0_9 = Inr o22
                  \<and> p24 e = b24 + off \<and> p22 e = b22 + o22)"
  using assms
proof (induction items)
  case Nil
  show ?case by simp
next
  case (Cons x items)
  obtain n off where x: "x = (n, off)" by (cases x)
  from Cons.prems x obtain v where v: "int_times_float off c_0_9 = Inr v" by auto
  from Cons.prems have "\<forall>x\<in>set items. \<exists>v. int_times_float (snd x) c_0_9 = Inr v" by simp
  from Cons.IH [OF this] obtain rs where rs: "states_loop b24 b22 items = Inr rs"
    "map name rs = map fst items"
    "\<forall>e\<in>set rs. \<exists>off o22. (name e, off) \<in> set items
        \<and> int_times_float off c_0_9 = Inr o22 \<and> p24 e = b24 + off \<and> p22 e = b22 + o22"
    by blast
  let ?e = "\<lparr>name = n, p24 = b24 + off, p22 = b22 + v,
             p24_1g = (b24 + off) div 10, p22_1g = (b22 + v) div 10\<rparr>"
  have 1: "states_loop b24 b22 (x # items) = Inr (?e # rs)"
    by (simp add: x v rs(1))
  have 2: "map name (?e # rs) = map fst (x # items)"
    by (simp add: x rs(2))
  have 3: "\<forall>e\<in>set (?e # rs). \<exists>off o22. (name e, off) \<in> set (x # items)
        \<and> int_times_float off c_0_9 = Inr o22 \<and> p24 e = b24 + off \<and> p22 e = b22 + o22"
  proof
    fix e assume "e \<in> set (?e # rs)"
    then consider "e = ?e" | "e \<in> set rs" by auto
    then show "\<exists>off o22. (name e, off) \<in> set (x # items)
        \<and> int_times_float off c_0_9 = Inr o22 \<and> p24 e = b24 + off \<and> p22 e = b22 + o22"
    proof cases
      case 1
      then show ?thesis using v x by auto
    next
      case 2
      with rs(3) show ?thesis by fastforce
    qed
  qed
  from 1 2 3 show ?case by blast
qed

lemma offsets_convert:
  "\<forall>x\<in>set STATE_OFFSETS. \<exists>v. int_times_float (snd x) c_0_9 = Inr v"
proof -
  have "list_all (\<lambda>x. case int_times_float (snd x) c_0_9 of Inl _ \<Rightarrow> False | Inr _ \<Rightarrow> True)
          STATE_OFFSETS"
    by (simp add: STATE_OFFSETS_def float_defs)
  then have h: "\<forall>x\<in>set STATE_OFFSETS.
      case int_times_float (snd x) c_0_9 of Inl _ \<Rightarrow> False | Inr _ \<Rightarrow> True"
    unfolding list_all_iff .
  show ?thesis
  proof
    fix x assume "x \<in> set STATE_OFFSETS"
    with h have "case int_times_float (snd x) c_0_9 of Inl _ \<Rightarrow> False | Inr _ \<Rightarrow> True"
      by blast
    then show "\<exists>v. int_times_float (snd x) c_0_9 = Inr v"
      by (cases "int_times_float (snd x) c_0_9") simp_all
  qed
qed

lemma distinct_state_names: "distinct (map fst STATE_OFFSETS)"
  by (simp add: STATE_OFFSETS_def)

lemma length_STATE_OFFSETS: "length STATE_OFFSETS = 37"
  by (simp add: STATE_OFFSETS_def)

text \<open>
  C10, as stated: for every base price the operation returns one entry per region. It
  fails for an integer too large for a float: \<open>base_price_24k * 0.9166\<close> raises
  OverflowError.
\<close>

theorem calculate_all_states_overflow:
  "calculate_all_states (2 ^ 1024) = Inl OverflowError"
  by (simp add: calculate_all_states_def float_defs)

text \<open>
  C10, amended. For every base price of magnitude below \<open>2^1024 - 2^970\<close> the
  operation returns exactly one entry for each of the 37 configured regions, in ascending
  order of the region names; the 24-karat price of an entry is the base price plus the
  offset of its region, and its 22-karat price is \<open>int(base_price_24k * 0.9166)\<close> plus
  \<open>int(offset * 0.9)\<close>. From that magnitude on the operation raises OverflowError.
\<close>

theorem calculate_all_states_entries:
  "(\<bar>base_price_24k\<bar> < 2 ^ 1024 - 2 ^ 970 \<longrightarrow>
      (\<exists>base_price_22k rs.
          int_times_float base_price_24k c_0_9166 = Inr base_price_22k
        \<and> calculate_all_states base_price_24k = Inr rs
        \<and> map name rs = sort (map fst STATE_OFFSETS)
        \<and> sorted (map name rs) \<and> distinct (map name rs) \<and> length rs = 37
        \<and> (\<forall>e\<in>set rs. \<exists>offset offset_22k.
               map_of STATE_OFFSETS (name e) = Some offset
               \<and> int_times_float offset c_0_9 = Inr offset_22k
               \<and> p24 e = base_price_24k + offset
               \<and> p22 e = base_price_22k + offset_22k)))
   \<and> (2 ^ 1024 - 2 ^ 970 \<le> \<bar>base_price_24k\<bar> \<longrightarrow>
        calculate_all_states base_price_24k = Inl OverflowError)"
proof (intro conjI impI)
  assume "\<bar>base_price_24k\<bar> < 2 ^ 1024 - 2 ^ 970"
  then have "\<not> float_of_int_raises base_price_24k"
    by (simp add: float_of_int_raises_def)
  then obtain base_price_22k where b: "int_times_float base_price_24k c_0_9166 = Inr base_price_22k"
    using int_times_float_Inr_iff [OF c_0_9166_mantissa, of base_price_24k] by blast
  from states_loop_Inr [OF offsets_convert, of base_price_24k base_price_22k]
  obtain rs where rs: "states_loop base_price_24k base_price_22k STATE_OFFSETS = Inr rs"
    "map name rs = map fst STATE_OFFSETS"
    "\<forall>e\<in>set rs. \<exists>off o22. (name e, off) \<in> set STATE_OFFSETS
        \<and> int_times_float off c_0_9 = Inr o22
        \<and> p24 e = base_price_24k + off \<and> p22 e = base_price_22k + o22"
    by blast
  let ?rs = "sort_key name rs"
  have 1: "calculate_all_states base_price_24k = Inr ?rs"
    by (simp add: calculate_all_states_def b rs(1))
  have 2: "map name ?rs = sort (map fst STATE_OFFSETS)"
    by (simp add: map_sort_key rs(2))
  have 3: "sorted (map name ?rs)" by simp
  have 4: "distinct (map name ?rs)"
    by (simp add: 2 distinct_state_names)
  have "length rs = length (map fst STATE_OFFSETS)"
    using rs(2) by (metis length_map)
  then have 5: "length ?rs = 37"
    by (simp add: length_STATE_OFFSETS)
  have 6: "\<forall>e\<in>set ?rs. \<exists>offset offset_22k.
                  map_of STATE_OFFSETS (name e) = Some offset
                  \<and> int_times_float offset c_0_9 = Inr offset_22k
                  \<and> p24 e = base_price_24k + offset
                  \<and> p22 e = base_price_22k + offset_22k"
  proof
    fix e assume "e \<in> set ?rs"
    then have "e \<in> set rs" by simp
    with rs(3) obtain off o22 where o: "(name e, off) \<in> set STATE_OFFSETS"
      "int_times_float off c_0_9 = Inr o22"
      "p24 e = base_price_24k + off" "p22 e = base_price_22k + o22"
      by blast
    from o(1) distinct_state_names have "map_of STATE_OFFSETS (name e) = Some off"
      by simp
    with o show "\<exists>offset offset_22k.
                  map_of STATE_OFFSETS (name e) = Some offset
                  \<and> int_times_float offset c_0_9 = Inr offset_22k
                  \<and> p24 e = base_price_24k + offset
                  \<and> p22 e = base_price_22k + offset_22k"
      by blast
  qed
  from b 1 2 3 4 5 6 show "\<exists>base_price_22k rs.
          int_times_float base_price_24k c_0_9166 = Inr base_price_22k
        \<and> calculate_all_states base_price_24k = Inr rs
        \<and> map name rs = sort (map fst STATE_OFFSETS)
        \<and> sorted (map name rs) \<and> distinct (map name rs) \<and> length rs = 37
        \<and> (\<forall>e\<in>set rs. \<exists>offset offset_22k.
               map_of STATE_OFFSETS (name e) = Some offset
               \<and> int_times_float offset c_0_9 = Inr offset_22k
               \<and> p24 e = base_price_24k + offset
               \<and> p22 e = base_price_22k + offset_22k)"
    by blast
next
  assume "2 ^ 1024 - 2 ^ 970 \<le> \<bar>base_price_24k\<bar>"
  then have "float_of_int_raises base_price_24k"
    by (simp add: float_of_int_raises_def)
  then have "to_double base_price_24k 0 = None"
    by (simp add: to_double_int_None_iff)
  then show "calculate_all_states base_price_24k = Inl OverflowError"
    by (simp add: calculate_all_states_def int_times_float_def)
qed

lemma int_times_float_160000: "int_times_float 160000 c_0_9166 = Inr 146656"
  by (simp add: float_defs)

theorem calculate_all_states_entries_witness:
  "(\<exists>rs. calculate_all_states 160000 = Inr rs
           \<and> map name rs = sort (map fst STATE_OFFSETS)
           \<and> sorted (map name rs) \<and> distinct (map name rs) \<and> length rs = 37
           \<and> (\<forall>e\<in>set rs. \<exists>offset offset_22k.
                  map_of STATE_OFFSETS (name e) = Some offset
                  \<and> int_times_float offset c_0_9 = Inr offset_22k
                  \<and> p24 e = 160000 + offset
                  \<and> p22 e = 146656 + offset_22k))
   \<and> calculate_all_states (- (2 ^ 1024)) = Inl OverflowError"
proof -
  have small: "\<bar>160000 :: int\<bar> < 2 ^ 1024 - 2 ^ 970" by simp
  have large: "2 ^ 1024 - 2 ^ 970 \<le> \<bar>- (2 ^ 1024) :: int\<bar>" by simp
  from calculate_all_states_entries [of 160000] small int_times_float_160000
  have a: "\<exists>rs. calculate_all_states 160000 = Inr rs
           \<and> map name rs = sort (map fst STATE_OFFSETS)
           \<and> sorted (map name rs) \<and> distinct (map name rs) \<and> length rs = 37
           \<and> (\<forall>e\<in>set rs. \<exists>offset offset_22k.
                  map_of STATE_OFFSETS (name e) = Some offset
                  \<and> int_times_float offset c_0_9 = Inr offset_22k
                  \<and> p24 e = 160000 + offset
                  \<and> p22 e = 146656 + offset_22k)"
    by auto
  from calculate_all_states_entries [of "- (2 ^ 1024)"] large
  have b: "calculate_all_states (- (2 ^ 1024)) = Inl OverflowError"
    by blast
  from a b show ?thesis by blast
qed

end
